theory Spec2Isabelle
  imports Main "HOL-Library.AList"
begin

section \<open>Python values, dictionaries and exceptions\<close>

text \<open>
  The client passes keyword arguments, query parameters, headers and decoded JSON around
  as ordinary Python objects. A dictionary is an association list in insertion order with
  string keys; a pydantic model instance is its class name and its fields.
\<close>

datatype pyval =
    PNone
  | PBool bool
  | PInt int
  | PStr string
  | PList "pyval list"
  | PDict "(string \<times> pyval) list"
  | PModel string "(string \<times> pyval) list"

type_synonym dict = "(string \<times> pyval) list"

text \<open>
  An exception is a value. \<open>JSONDecodeError\<close> is \<open>json.decoder.JSONDecodeError\<close>, the
  one class that the route wrapper catches. \<open>Raised\<close> is any other exception of a library
  or of the interpreter (pydantic's ValidationError, an exception of the HTTP transport,
  RecursionError), named by its class.
\<close>

datatype error =
    TypeError
  | KeyError string
  | ValueError
  | AttributeError
  | JSONDecodeError
  | Raised string

text \<open>Python's truth test: \<open>if v\<close>, \<open>v or w\<close>, \<open>v and w\<close>, \<open>not v\<close>.\<close>

fun truthy :: "pyval \<Rightarrow> bool" where
  "truthy PNone = False"
| "truthy (PBool b) = b"
| "truthy (PInt i) = (i \<noteq> 0)"
| "truthy (PStr s) = (s \<noteq> [])"
| "truthy (PList l) = (l \<noteq> [])"
| "truthy (PDict d) = (d \<noteq> [])"
| "truthy (PModel c fs) = True"

definition py_or :: "pyval \<Rightarrow> pyval \<Rightarrow> pyval" where
  "py_or a b = (if truthy a then a else b)"

text \<open>\<open>d.get(k)\<close>: the value, or \<open>None\<close>.\<close>

definition dict_get :: "dict \<Rightarrow> string \<Rightarrow> pyval" where
  "dict_get d k = (case map_of d k of None \<Rightarrow> PNone | Some v \<Rightarrow> v)"

text \<open>\<open>d.get(k, default)\<close>.\<close>

definition dict_get_default :: "dict \<Rightarrow> string \<Rightarrow> pyval \<Rightarrow> pyval" where
  "dict_get_default d k dflt = (case map_of d k of None \<Rightarrow> dflt | Some v \<Rightarrow> v)"

text \<open>
  \<open>d.update(e)\<close> and \<open>d | e\<close>: the items of \<open>e\<close> are stored into \<open>d\<close> one after the
  other, so on a key of both the value of \<open>e\<close> stays.
\<close>

definition dict_union :: "dict \<Rightarrow> dict \<Rightarrow> dict" where
  "dict_union d e = fold (\<lambda>(k, v). AList.update k v) e d"

text \<open>\<open>d.pop(k, default)\<close>: the value removed and the dictionary left.\<close>

definition dict_pop :: "dict \<Rightarrow> string \<Rightarrow> pyval \<Rightarrow> pyval \<times> dict" where
  "dict_pop d k dflt = (dict_get_default d k dflt, AList.delete k d)"

text \<open>\<open>d.setdefault(k, v)\<close>, for the dictionary it leaves.\<close>

definition dict_setdefault :: "dict \<Rightarrow> string \<Rightarrow> pyval \<Rightarrow> dict" where
  "dict_setdefault d k v = (if k \<in> fst ` set d then d else d @ [(k, v)])"

text \<open>
  The argument of \<open>dict.update\<close>: a mapping gives its items, a model instance iterates
  as its (field, value) pairs, an empty string or list gives nothing, a list of
  two-element lists with a string first gives those pairs. Anything else raises
  (\<open>None\<close>, a number: TypeError; a non-empty string: ValueError).
\<close>

fun as_pair :: "pyval \<Rightarrow> (string \<times> pyval) option" where
  "as_pair (PList [PStr k, v]) = Some (k, v)"
| "as_pair _ = None"

fun update_arg :: "pyval \<Rightarrow> error + dict" where
  "update_arg (PDict d) = Inr d"
| "update_arg (PModel c fs) = Inr fs"
| "update_arg (PStr s) = (if s = [] then Inr [] else Inl ValueError)"
| "update_arg (PList l) =
     (if list_all (\<lambda>x. as_pair x \<noteq> None) l then Inr (map (\<lambda>x. the (as_pair x)) l)
      else Inl TypeError)"
| "update_arg _ = Inl TypeError"

section \<open>Decimal rendering and the id list of a bulk lookup\<close>

definition digit_char :: "nat \<Rightarrow> char" where
  "digit_char d = ''0123456789'' ! d"

fun str_nat :: "nat \<Rightarrow> string" where
  "str_nat n =
     (if n < 10 then [digit_char n] else str_nat (n div 10) @ [digit_char (n mod 10)])"

declare str_nat.simps [simp del]

text \<open>\<open>str(i)\<close> of an integer.\<close>

definition str_int :: "int \<Rightarrow> string" where
  "str_int i = (if i < 0 then CHR ''-'' # str_nat (nat (- i)) else str_nat (nat i))"

text \<open>\<open>sep.join(parts)\<close>.\<close>

fun join :: "string \<Rightarrow> string list \<Rightarrow> string" where
  "join sep [] = []"
| "join sep [p] = p"
| "join sep (p # q # ps) = p @ sep @ join sep (q # ps)"

text \<open>\<open>Client.prepare_track_ids\<close>: \<open>",".join(map(str, ids))\<close>.\<close>

definition prepare_track_ids :: "int list \<Rightarrow> string" where
  "prepare_track_ids ids = join '','' (map str_int ids)"

section \<open>The pagination cursor\<close>

text \<open>
  \<open>Client.get_next_offset\<close> reads the query string of a URL with \<open>urllib.parse\<close>. The
  functions below follow \<open>urlsplit\<close>, \<open>parse_qsl\<close>, \<open>parse_qs\<close> and \<open>unquote\<close> on byte
  strings: a string of the model is the UTF-8 encoding of the Python string. (Where a
  percent escape decodes to bytes that are not UTF-8, Python puts U+FFFD; the model keeps
  the bytes.)
\<close>

text \<open>\<open>s.split(c)\<close> for a one-character separator: never empty.\<close>

fun split_on :: "char \<Rightarrow> string \<Rightarrow> string list" where
  "split_on c [] = [[]]"
| "split_on c (x # xs) =
     (if x = c then [] # split_on c xs
      else (case split_on c xs of [] \<Rightarrow> [[x]] | p # ps \<Rightarrow> (x # p) # ps))"

text \<open>\<open>s.split(c, 1)\<close>, when \<open>c\<close> occurs: the text before the first \<open>c\<close> and the text after it.\<close>

definition split_first :: "char \<Rightarrow> string \<Rightarrow> (string \<times> string) option" where
  "split_first c s =
     (if c \<in> set s then Some (takeWhile (\<lambda>x. x \<noteq> c) s, tl (dropWhile (\<lambda>x. x \<noteq> c) s))
      else None)"

text \<open>
  The query component that \<open>urlsplit\<close> returns: tabs and line breaks are removed from
  the URL, the fragment is cut at the first \<open>#\<close>, and the query is what follows the
  first \<open>?\<close> of the rest. (The scheme and the network location, which \<open>urlsplit\<close> takes
  off first, hold neither \<open>?\<close> nor \<open>#\<close>.)
\<close>

definition unsafe_url_char :: "char \<Rightarrow> bool" where
  "unsafe_url_char c = (c = CHR 0x09 \<or> c = CHR 0x0A \<or> c = CHR 0x0D)"

definition url_query :: "string \<Rightarrow> string" where
  "url_query href =
     (let url = filter (\<lambda>c. \<not> unsafe_url_char c) href;
          rest = takeWhile (\<lambda>c. c \<noteq> CHR ''#'') url
      in case split_first CHR ''?'' rest of None \<Rightarrow> [] | Some (_, query) \<Rightarrow> query)"

definition hexval :: "char \<Rightarrow> nat option" where
  "hexval c = map_of (zip ''0123456789abcdefABCDEF''
     [0, 1, 2, 3, 4, 5, 6, 7, 8, 9, 10, 11, 12, 13, 14, 15, 10, 11, 12, 13, 14, 15]) c"

text \<open>\<open>unquote\<close>: \<open>%XX\<close> with two hexadecimal digits is the byte; any other \<open>%\<close> stays.\<close>

fun unquote :: "string \<Rightarrow> string" where
  "unquote (p # a # b # cs) =
     (if p = CHR ''%'' then
        (case (hexval a, hexval b) of
           (Some h, Some l) \<Rightarrow> char_of (16 * h + l) # unquote cs
         | _ \<Rightarrow> p # unquote (a # b # cs))
      else p # unquote (a # b # cs))"
| "unquote cs = cs"

text \<open>What \<open>parse_qsl\<close> does to a name and to a value: \<open>+\<close> is a space, then \<open>unquote\<close>.\<close>

definition unquote_plus :: "string \<Rightarrow> string" where
  "unquote_plus s = unquote (map (\<lambda>c. if c = CHR ''+'' then CHR '' '' else c) s)"

text \<open>
  One field of the query string in \<open>parse_qsl\<close> (no strict parsing, blank values
  dropped): an empty field, a field with no \<open>=\<close> and a field with an empty value give
  nothing.
\<close>

definition parse_field :: "string \<Rightarrow> (string \<times> string) list" where
  "parse_field name_value =
     (if name_value = [] then []
      else (case split_first CHR ''='' name_value of
              None \<Rightarrow> []
            | Some (name, val) \<Rightarrow>
                if val \<noteq> [] then [(unquote_plus name, unquote_plus val)] else []))"

definition parse_qsl :: "string \<Rightarrow> (string \<times> string) list" where
  "parse_qsl qs = concat (map parse_field (split_on CHR ''&'' qs))"

text \<open>\<open>parse_qs\<close>: the values of each name, in the order met.\<close>

definition parse_qs :: "string \<Rightarrow> (string \<times> string list) list" where
  "parse_qs qs =
     fold (\<lambda>(name, val) res.
             case map_of res name of
               Some vals \<Rightarrow> AList.update name (vals @ [val]) res
             | None \<Rightarrow> res @ [(name, [val])])
          (parse_qsl qs) []"

text \<open>
  \<open>Client.get_next_offset\<close>. \<open>urlsplit\<close> raises ValueError on a URL whose network
  location it rejects (unbalanced brackets, a bracketed host that is no IP literal);
  that test is the parameter \<open>rejected\<close>. The function touches nothing but its
  argument: it takes no client and returns no event.
\<close>

definition get_next_offset :: "(string \<Rightarrow> bool) \<Rightarrow> string option \<Rightarrow> error + string option" where
  "get_next_offset rejected href =
     (case href of
        None \<Rightarrow> Inr None
      | Some h \<Rightarrow>
          if h = [] then Inr None
          else if rejected h then Inl ValueError
          else
            (let offset = (case map_of (parse_qs (url_query h)) ''offset'' of
                             None \<Rightarrow> None
                           | Some vals \<Rightarrow> if vals = [] then None else Some vals)
             in Inr (case offset of None \<Rightarrow> None | Some vals \<Rightarrow> Some (hd vals))))"

section \<open>Path templates\<close>

text \<open>
  A route's path is a template such as \<open>users/{user_id}/likes\<close>, here as the pieces that
  both \<open>starlette.routing.compile_path\<close> and \<open>str.format\<close> read it into: literal text
  and named fields. (Every template of the client has this shape: no conversion, no format
  specification, no doubled brace.)
\<close>

datatype segment = Lit string | Field string

fun path_param_names :: "segment list \<Rightarrow> string list" where
  "path_param_names [] = []"
| "path_param_names (Lit s # p) = path_param_names p"
| "path_param_names (Field n # p) = n # path_param_names p"

text \<open>
  \<open>compile_path(path)\<close>, for its third result, the parameter names; a name used twice
  is a ValueError.
\<close>

definition compile_path :: "segment list \<Rightarrow> error + string list" where
  "compile_path path =
     (if distinct (path_param_names path) then Inr (path_param_names path) else Inl ValueError)"

text \<open>
  \<open>path.format(**path_params)\<close>: the fields are filled from left to right, and the first
  one with no argument raises KeyError. How Python renders a value into the text (the
  function \<open>format\<close>) is the parameter \<open>render\<close>.
\<close>

fun format_path :: "(pyval \<Rightarrow> string) \<Rightarrow> segment list \<Rightarrow> dict \<Rightarrow> error + string" where
  "format_path render [] kw = Inr []"
| "format_path render (Lit s # p) kw =
     (case format_path render p kw of Inl e \<Rightarrow> Inl e | Inr r \<Rightarrow> Inr (s @ r))"
| "format_path render (Field n # p) kw =
     (case map_of kw n of
        None \<Rightarrow> Inl (KeyError n)
      | Some v \<Rightarrow> (case format_path render p kw of Inl e \<Rightarrow> Inl e | Inr r \<Rightarrow> Inr (render v @ r)))"

section \<open>The client and what lies outside it\<close>

record request =
  req_method :: string
  req_url :: string
  req_kwargs :: dict

record response =
  status_code :: int
  resp_url :: string
  resp_content :: string

text \<open>
  What a call does besides returning: it calls \<open>requests.request\<close> (\<open>Requested\<close>, with
  the arguments of that call) and it writes log lines. The log lines are kept by their
  parts: \<open>Making request to {url}\<close>, \<open>Making request {method} {url}\<close>,
  \<open>Response {status} for {method} {url}\<close> and, at error level,
  \<open>Failed to decode response (status: {status})\<close> with the body.
\<close>

datatype event =
    Requested request
  | Log_making_request_to string
  | Log_making_request string string
  | Log_response int string string
  | Log_decode_failed int string

fun is_request :: "event \<Rightarrow> bool" where
  "is_request (Requested r) = True"
| "is_request _ = False"

text \<open>The calls of \<open>requests.request\<close> among the events, in order.\<close>

fun requests_of :: "event list \<Rightarrow> request list" where
  "requests_of [] = []"
| "requests_of (Requested r # evs) = r # requests_of evs"
| "requests_of (ev # evs) = requests_of evs"

text \<open>A query parameter of a request, as \<open>requests.request\<close> is given it in \<open>params\<close>.\<close>

definition query_param :: "request \<Rightarrow> string \<Rightarrow> pyval option" where
  "query_param r k =
     (case map_of (req_kwargs r) ''params'' of Some (PDict q) \<Rightarrow> map_of q k | _ \<Rightarrow> None)"

text \<open>The settings that the client reads (\<open>get_settings()\<close>).\<close>

record settings =
  s_base_url :: string
  oauth_token :: string
  datadome_clientid :: string
  client_id :: string
  s_proxy :: "string option"
  sc_a_id :: string

text \<open>
  The libraries and the network, as parameters of the model: the rendering of a value by
  \<open>format\<close>; \<open>response.json()\<close>, which gives the decoded value or raises (JSONDecodeError
  on a body that is no JSON, and other exceptions: the decoder ends a body that is nested
  too deeply with RecursionError); pydantic's \<open>TypeAdapter(t).dump_json\<close>,
  \<open>TypeAdapter(t).validate_python\<close> and \<open>model_dump(mode="json")\<close>, with a type named by
  its text; and \<open>requests.request\<close>.
\<close>

record externals =
  format_value :: "pyval \<Rightarrow> string"
  json_loads :: "string \<Rightarrow> error + pyval"
  dump_json :: "string \<Rightarrow> pyval \<Rightarrow> error + string"
  validate_python :: "string \<Rightarrow> pyval \<Rightarrow> error + pyval"
  model_dump :: "pyval \<Rightarrow> pyval"
  requests_request :: "request \<Rightarrow> error + response"
  get_settings :: settings

record client =
  base_url :: string
  headers :: dict
  params :: dict
  proxies :: dict

text \<open>\<open>if get_settings().proxy\<close>: set and not empty.\<close>

definition proxy_set :: "settings \<Rightarrow> bool" where
  "proxy_set st = (case s_proxy st of None \<Rightarrow> False | Some p \<Rightarrow> p \<noteq> [])"

text \<open>
  \<open>Client.__init__(base_url)\<close>; \<open>user_agent\<close> is what \<open>generate_random_user_agent()\<close>
  gave. The default of \<open>base_url\<close> is the one of the settings.
\<close>

definition init_client :: "settings \<Rightarrow> string \<Rightarrow> string \<Rightarrow> client" where
  "init_client st user_agent url =
     \<lparr> base_url = url,
       headers = [(''Authorization'', PStr (''OAuth '' @ oauth_token st)),
                  (''User-Agent'', PStr user_agent),
                  (''x-datadome-clientid'', PStr (datadome_clientid st))],
       params = [(''client_id'', PStr (client_id st)),
                 (''app_version'', PStr ''1739181955''),
                 (''app_locale'', PStr ''en'')],
       proxies = (case s_proxy st of
                    None \<Rightarrow> []
                  | Some p \<Rightarrow> if p \<noteq> [] then [(''https://'', PStr (''https://'' @ p))] else []) \<rparr>"

text \<open>\<open>Client.json_dump\<close>.\<close>

definition json_dump :: "externals \<Rightarrow> pyval \<Rightarrow> pyval" where
  "json_dump ext data = (case data of PModel c fs \<Rightarrow> model_dump ext data | _ \<Rightarrow> data)"

text \<open>\<open>Client.make_url\<close>.\<close>

definition make_url :: "externals \<Rightarrow> client \<Rightarrow> segment list \<Rightarrow> dict \<Rightarrow> error + string" where
  "make_url ext self path path_params =
     (case format_path (format_value ext) path path_params of
        Inl e \<Rightarrow> Inl e
      | Inr formatted \<Rightarrow> Inr (base_url self @ ''/'' @ formatted))"

text \<open>
  The left operand of \<open>kwargs.get(key, {}) | defaults\<close>: a value that is no
  dictionary has no \<open>|\<close> with one, a TypeError.
\<close>

definition union_operand :: "dict \<Rightarrow> string \<Rightarrow> error + dict" where
  "union_operand kwargs key =
     (case dict_get_default kwargs key (PDict []) of PDict d \<Rightarrow> Inr d | _ \<Rightarrow> Inl TypeError)"

text \<open>
  \<open>Client.make_request\<close>. It returns the events in the order they happen and the
  response, or the exception raised.
\<close>

definition make_request ::
  "externals \<Rightarrow> client \<Rightarrow> string \<Rightarrow> string \<Rightarrow> dict \<Rightarrow> event list \<times> (error + response)" where
  "make_request ext self method url kwargs =
     (case union_operand kwargs ''params'' of
        Inl e \<Rightarrow> ([], Inl e)
      | Inr p \<Rightarrow>
     (let kwargs1 = AList.update ''params'' (PDict (dict_union p (params self))) kwargs in
      case union_operand kwargs1 ''headers'' of
        Inl e \<Rightarrow> ([], Inl e)
      | Inr h \<Rightarrow>
     (let kwargs2 = AList.update ''headers'' (PDict (dict_union h (headers self))) kwargs1;
          kwargs3 = (if proxy_set (get_settings ext)
                     then dict_setdefault kwargs2 ''proxies'' (PDict (proxies self))
                     else kwargs2);
          kwargs4 = dict_setdefault kwargs3 ''verify'' (PBool False);
          req = \<lparr> req_method = method, req_url = url, req_kwargs = kwargs4 \<rparr>;
          evs = [Log_making_request method url, Requested req]
      in case requests_request ext req of
           Inl e \<Rightarrow> (evs, Inl e)
         | Inr resp \<Rightarrow> (evs @ [Log_response (status_code resp) method (resp_url resp)], Inr resp))))"

section \<open>Endpoints and the splitting of the arguments\<close>

text \<open>
  An endpoint is the function that \<open>route\<close> decorates. The model keeps what
  \<open>SplitParams.from_route\<close> uses of it: the defaults that its signature declares, what
  calling it with the caller's keyword arguments returns or raises, and its annotations
  (the type named by its text).
\<close>

record endpoint =
  default_kwargs :: dict
  call :: "dict \<Rightarrow> error + pyval"
  annotations :: "(string \<times> string) list"

text \<open>
  Modelled from the spec: \<open>get_default_kwargs\<close> of \<open>soundcloud_tools.utils\<close> is not
  among the sources. By the spec the defaults that an endpoint declares are used unless
  the caller overrides them: the helper gives the parameters of the endpoint's signature
  that have a default, each with its default.
\<close>

definition get_default_kwargs :: "endpoint \<Rightarrow> dict" where
  "get_default_kwargs ep = default_kwargs ep"

record split_params =
  path_params :: dict
  query_params :: dict
  data :: pyval
  content :: "string option"
  kwargs :: dict

text \<open>
  The receiver of \<open>.update\<close>, \<open>.pop\<close> and \<open>.get\<close> has to be a dictionary: on another
  value the attribute is missing.
\<close>

definition as_dict :: "pyval \<Rightarrow> error + dict" where
  "as_dict v = (case v of PDict d \<Rightarrow> Inr d | _ \<Rightarrow> Inl AttributeError)"

text \<open>
  Lines 44 to 47: a payload that is true and an annotation of \<open>data\<close> give the content,
  the payload dumped as JSON by that type; \<open>dump_json\<close> may raise.
\<close>

definition dump_content :: "externals \<Rightarrow> endpoint \<Rightarrow> pyval \<Rightarrow> error + string option" where
  "dump_content ext ep payload =
     (if truthy payload then
        (case map_of (annotations ep) ''data'' of
           None \<Rightarrow> Inr None
         | Some data_type \<Rightarrow>
             (case dump_json ext data_type payload of Inl e \<Rightarrow> Inl e | Inr c \<Rightarrow> Inr (Some c)))
      else Inr None)"

text \<open>\<open>SplitParams.from_route\<close>, statement by statement.\<close>

definition from_route :: "externals \<Rightarrow> endpoint \<Rightarrow> segment list \<Rightarrow> dict \<Rightarrow> error + split_params" where
  "from_route ext ep path kw =
     (let full_kwargs = dict_union (get_default_kwargs ep) kw in
      case call ep kw of Inl e \<Rightarrow> Inl e | Inr returned \<Rightarrow>
      case compile_path path of Inl e \<Rightarrow> Inl e | Inr expected_path_params \<Rightarrow>
      (let (kwargs0, full1) = dict_pop full_kwargs ''kwargs'' (PDict []) in
       case as_dict kwargs0 of Inl e \<Rightarrow> Inl e | Inr kwargs1 \<Rightarrow>
       case as_dict (py_or returned (PDict [])) of Inl e \<Rightarrow> Inl e | Inr additional0 \<Rightarrow>
       (let (more_kwargs, additional_params) = dict_pop additional0 ''kwargs'' (PDict []) in
        case update_arg more_kwargs of Inl e \<Rightarrow> Inl e | Inr extra \<Rightarrow>
        (let (data0, full2) = dict_pop full1 ''data'' PNone;
             payload = py_or data0 (dict_get additional_params ''data'')
         in
         case dump_content ext ep payload of Inl e \<Rightarrow> Inl e | Inr dumped \<Rightarrow>
         (let in_path = filter (\<lambda>(k, v). k \<in> set expected_path_params) full2;
              in_query = filter (\<lambda>(k, v). k \<notin> set expected_path_params) full2
          in
          case update_arg (dict_get_default additional_params ''query'' (PDict [])) of
            Inl e \<Rightarrow> Inl e
          | Inr query \<Rightarrow>
          (let (as_params, query1) = dict_pop (dict_union in_query query) ''params'' (PDict []) in
           case update_arg as_params of
             Inl e \<Rightarrow> Inl e
           | Inr passed \<Rightarrow>
               Inr \<lparr> path_params = in_path,
                     query_params = dict_union query1 passed,
                     data = payload,
                     content = dumped,
                     kwargs = dict_union kwargs1 extra \<rparr>))))))"

section \<open>The route wrapper\<close>

text \<open>
  \<open>self.make_request(method, url, data=..., params=..., **split_params.kwargs)\<close>: a
  transport option named like one of the arguments already given is a TypeError of the
  call itself.
\<close>

definition request_kwargs :: "split_params \<Rightarrow> pyval \<Rightarrow> error + dict" where
  "request_kwargs sp query =
     (if list_ex (\<lambda>k. k \<in> set [''self'', ''method'', ''url'', ''data'', ''params'']) (map fst (kwargs sp))
      then Inl TypeError
      else Inr ([(''data'', (case content sp of None \<Rightarrow> PNone | Some c \<Rightarrow> PStr c)),
                 (''params'', query)] @ kwargs sp))"

text \<open>
  What \<open>caller\<close> does with the response: lines 70 to 77. The \<open>except\<close> clause names
  \<open>json.decoder.JSONDecodeError\<close>: that exception is logged and the call returns \<open>None\<close>;
  any other exception of \<open>response.json()\<close> leaves the call.
\<close>

definition decode_response ::
  "externals \<Rightarrow> string option \<Rightarrow> response \<Rightarrow> event list \<times> (error + pyval)" where
  "decode_response ext response_model resp =
     (case json_loads ext (resp_content resp) of
        Inl e \<Rightarrow>
          if e = JSONDecodeError
          then ([Log_decode_failed (status_code resp) (resp_content resp)], Inr PNone)
          else ([], Inl e)
      | Inr response_data \<Rightarrow>
          (case response_model of
             None \<Rightarrow> ([], Inr response_data)
           | Some model \<Rightarrow> ([], validate_python ext model response_data)))"

text \<open>
  \<open>caller\<close>, the function that \<open>route(method, path, response_model)\<close> puts in the place
  of an endpoint.
\<close>

definition caller ::
  "externals \<Rightarrow> client \<Rightarrow> string \<Rightarrow> segment list \<Rightarrow> string option \<Rightarrow> endpoint \<Rightarrow> dict
     \<Rightarrow> event list \<times> (error + pyval)" where
  "caller ext self method path response_model endpoint_func kw =
     (case from_route ext endpoint_func path kw of
        Inl e \<Rightarrow> ([], Inl e)
      | Inr sp \<Rightarrow>
     (case make_url ext self path (path_params sp) of
        Inl e \<Rightarrow> ([], Inl e)
      | Inr url \<Rightarrow>
     (let query = json_dump ext (PDict (query_params sp)) in
      case request_kwargs sp query of
        Inl e \<Rightarrow> ([Log_making_request_to url], Inl e)
      | Inr rkw \<Rightarrow>
     (let (evs, res) = make_request ext self method url rkw in
      case res of
        Inl e \<Rightarrow> (Log_making_request_to url # evs, Inl e)
      | Inr resp \<Rightarrow>
          (let (evs', out) = decode_response ext response_model resp
           in (Log_making_request_to url # evs @ evs', out))))))"

section \<open>The routes of the client\<close>

record route =
  r_method :: string
  r_path :: "segment list"
  r_response_model :: "string option"
  r_endpoint :: endpoint

definition call_route :: "externals \<Rightarrow> client \<Rightarrow> route \<Rightarrow> dict \<Rightarrow> event list \<times> (error + pyval)" where
  "call_route ext self r kw =
     caller ext self (r_method r) (r_path r) (r_response_model r) (r_endpoint r) kw"

text \<open>
  An endpoint of the client is a signature with the body \<open>...\<close>: called with keyword
  arguments, Python raises TypeError on a name that is no parameter and on a parameter
  with no default that is not given, and the body returns \<open>None\<close>.
\<close>

definition declared :: "string list \<Rightarrow> dict \<Rightarrow> (string \<times> string) list \<Rightarrow> endpoint" where
  "declared required defaults annots =
     \<lparr> default_kwargs = defaults,
       call = (\<lambda>kw.
         if list_all (\<lambda>k. k \<in> set (required @ map fst defaults)) (map fst kw)
            \<and> list_all (\<lambda>r. r \<in> set (map fst kw)) required
         then Inr PNone else Inl TypeError),
       annotations = annots \<rparr>"

definition paging :: dict where
  "paging = [(''limit'', PInt 100), (''offset'', PNone), (''linked_partitioning'', PBool True)]"

definition paging_annots :: "(string \<times> string) list" where
  "paging_annots = [(''user_id'', ''int''), (''limit'', ''int''), (''offset'', ''str | None''),
     (''linked_partitioning'', ''bool'')]"

definition post_playlist :: route where
  "post_playlist = \<lparr> r_method = ''POST'', r_path = [Lit ''playlists''],
     r_response_model = Some ''Playlist'',
     r_endpoint = declared [''data''] []
       [(''data'', ''PlaylistCreateRequest''), (''return'', ''Playlist'')] \<rparr>"

definition get_playlist :: route where
  "get_playlist = \<lparr> r_method = ''GET'', r_path = [Lit ''playlists/'', Field ''playlist_id''],
     r_response_model = Some ''Playlist'',
     r_endpoint = declared [''playlist_id''] [(''show_tracks'', PBool True)]
       [(''playlist_id'', ''int''), (''show_tracks'', ''bool'')] \<rparr>"

definition get_user_likes :: route where
  "get_user_likes = \<lparr> r_method = ''GET'', r_path = [Lit ''users/'', Field ''user_id'', Lit ''/likes''],
     r_response_model = Some ''Likes'',
     r_endpoint = declared [''user_id''] paging paging_annots \<rparr>"

definition get_user_comments :: route where
  "get_user_comments = \<lparr> r_method = ''GET'',
     r_path = [Lit ''users/'', Field ''user_id'', Lit ''/comments''],
     r_response_model = Some ''Comments'',
     r_endpoint = declared [''user_id''] (paging @ [(''threaded'', PInt 0)])
       (paging_annots @ [(''threaded'', ''int'')]) \<rparr>"

definition get_user_reposts :: route where
  "get_user_reposts = \<lparr> r_method = ''GET'',
     r_path = [Lit ''stream/users/'', Field ''user_id'', Lit ''/reposts''],
     r_response_model = Some ''Reposts'',
     r_endpoint = declared [''user_id''] paging paging_annots \<rparr>"

definition get_user_followings_ids :: route where
  "get_user_followings_ids = \<lparr> r_method = ''GET'',
     r_path = [Lit ''users/'', Field ''user_id'', Lit ''/followings/ids''],
     r_response_model = Some ''Followings'',
     r_endpoint = declared [''user_id'']
       [(''limit'', PInt 5000), (''linked_partitioning'', PBool True)]
       [(''user_id'', ''int''), (''limit'', ''int''), (''linked_partitioning'', ''bool'')] \<rparr>"

definition get_user_followers_ids :: route where
  "get_user_followers_ids = \<lparr> r_method = ''GET'',
     r_path = [Lit ''users/'', Field ''user_id'', Lit ''/followers/ids''],
     r_response_model = None,
     r_endpoint = declared [''user_id'']
       [(''limit'', PInt 5000), (''linked_partitioning'', PBool True)]
       [(''user_id'', ''int''), (''limit'', ''int''), (''linked_partitioning'', ''bool'')] \<rparr>"

definition get_track :: route where
  "get_track = \<lparr> r_method = ''GET'', r_path = [Lit ''tracks/'', Field ''track_id''],
     r_response_model = Some ''Track'',
     r_endpoint = declared [''track_id''] [] [(''track_id'', ''int'')] \<rparr>"

definition get_stream :: "settings \<Rightarrow> route" where
  "get_stream st = \<lparr> r_method = ''GET'', r_path = [Lit ''stream''],
     r_response_model = Some ''Stream'',
     r_endpoint = declared [''user_urn'']
       [(''sc_a_id'', PStr (sc_a_id st)), (''promoted_playlist'', PBool True),
        (''limit'', PInt 100), (''offset'', PInt 0), (''linked_partitioning'', PBool True)]
       [(''user_urn'', ''str''), (''sc_a_id'', ''str''), (''promoted_playlist'', ''bool''),
        (''limit'', ''int''), (''offset'', ''int''), (''linked_partitioning'', ''bool'')] \<rparr>"

definition search :: route where
  "search = \<lparr> r_method = ''GET'', r_path = [Lit ''search''],
     r_response_model = Some ''Search'',
     r_endpoint = declared [''q''] [(''limit'', PInt 20), (''offset'', PInt 0)]
       [(''q'', ''str''), (''limit'', ''int''), (''offset'', ''int'')] \<rparr>"

definition get_artist_shortcuts :: route where
  "get_artist_shortcuts = \<lparr> r_method = ''GET'', r_path = [Lit ''me/artist-shortcuts''],
     r_response_model = Some ''ArtistShortcuts'',
     r_endpoint = declared []
       [(''limit'', PInt 1000), (''offset'', PNone), (''linked_partitioning'', PBool True)]
       [(''limit'', ''int''), (''offset'', ''str | None''), (''linked_partitioning'', ''bool''),
        (''return'', ''ArtistShortcuts'')] \<rparr>"

definition get_artist_shortcut_stories :: route where
  "get_artist_shortcut_stories = \<lparr> r_method = ''GET'',
     r_path = [Lit ''me/artist-shortcuts/stories/'', Field ''user_urn''],
     r_response_model = Some ''ArtistShortcutStories'',
     r_endpoint = declared [''user_urn''] []
       [(''user_urn'', ''str''), (''return'', ''ArtistShortcutStories'')] \<rparr>"

definition update_playlist_image :: route where
  "update_playlist_image = \<lparr> r_method = ''PUT'',
     r_path = [Lit ''playlists/'', Field ''playlist_urn'', Lit ''/artwork''],
     r_response_model = Some ''PlaylistUpdateImageResponse'',
     r_endpoint = declared [''playlist_urn'', ''data''] []
       [(''playlist_urn'', ''str''), (''data'', ''PlaylistUpdateImageRequest'')] \<rparr>"

definition get_user_playlists :: route where
  "get_user_playlists = \<lparr> r_method = ''GET'',
     r_path = [Lit ''users/'', Field ''user_id'', Lit ''/playlists_without_albums''],
     r_response_model = Some ''UserPlaylists'',
     r_endpoint = declared [''user_id'']
       [(''offset'', PInt 0), (''limit'', PInt 12), (''linked_partitioning'', PBool True)]
       [(''user_id'', ''int''), (''offset'', ''int''), (''limit'', ''int''),
        (''linked_partitioning'', ''bool''), (''return'', ''UserPlaylists'')] \<rparr>"

definition get_tracks_route :: route where
  "get_tracks_route = \<lparr> r_method = ''GET'', r_path = [Lit ''tracks''],
     r_response_model = Some ''list[Track]'',
     r_endpoint = declared [''ids''] [] [(''ids'', ''str''), (''return'', ''list[Track]'')] \<rparr>"

text \<open>Every route that the class \<open>Client\<close> declares, in the order of the source.\<close>

definition client_routes :: "settings \<Rightarrow> route list" where
  "client_routes st =
     [post_playlist, get_playlist, get_user_likes, get_user_comments, get_user_reposts,
      get_user_followings_ids, get_user_followers_ids, get_track, get_stream st, search,
      get_artist_shortcuts, get_artist_shortcut_stories, update_playlist_image,
      get_user_playlists, get_tracks_route]"

section \<open>Bulk lookup of tracks\<close>

text \<open>
  Modelled from the spec: \<open>chunk_list\<close> of \<open>soundcloud_tools.utils\<close> is not among the
  sources. By the spec the ids are resolved in fixed-size batches, in order (75 ids and a
  batch size of 30 give batches of 30, 30 and 15). The spec says nothing of a batch size
  below 1; the model gives no batch there, and no theorem below uses that case.
\<close>

function chunk_list :: "'a list \<Rightarrow> int \<Rightarrow> 'a list list" where
  "chunk_list xs n =
     (if n \<le> 0 \<or> xs = [] then [] else take (nat n) xs # chunk_list (drop (nat n) xs) n)"
  by pat_completeness auto
termination
  by (relation "measure (\<lambda>(xs, n). length xs)") auto

declare chunk_list.simps [simp del]

text \<open>
  \<open>for track in ...\<close>: what iterating a value gives. A list gives its elements, a
  dictionary its keys, a string its characters, a model instance its (field, value)
  pairs (here as two-element lists); \<open>None\<close>, a number and a truth value raise TypeError.
\<close>

fun py_iter :: "pyval \<Rightarrow> error + pyval list" where
  "py_iter (PList l) = Inr l"
| "py_iter (PDict d) = Inr (map (\<lambda>(k, v). PStr k) d)"
| "py_iter (PStr s) = Inr (map (\<lambda>c. PStr [c]) s)"
| "py_iter (PModel c fs) = Inr (map (\<lambda>(k, v). PList [PStr k, v]) fs)"
| "py_iter _ = Inl TypeError"

text \<open>\<open>Client.get_tracks\<close>, called as \<open>self.get_tracks(ids=...)\<close>.\<close>

definition get_tracks :: "externals \<Rightarrow> client \<Rightarrow> string \<Rightarrow> event list \<times> (error + pyval)" where
  "get_tracks ext self ids = call_route ext self get_tracks_route [(''ids'', PStr ids)]"

text \<open>
  The comprehension of \<open>Client.get_all_tracks\<close> over the chunks: one lookup for a chunk,
  its tracks appended, then the next chunk; an exception ends it.
\<close>

fun collect_tracks ::
  "externals \<Rightarrow> client \<Rightarrow> int list list \<Rightarrow> event list \<times> (error + pyval list)" where
  "collect_tracks ext self [] = ([], Inr [])"
| "collect_tracks ext self (track_ids_chunk # rest) =
     (let (evs, res) = get_tracks ext self (prepare_track_ids track_ids_chunk) in
      case res of
        Inl e \<Rightarrow> (evs, Inl e)
      | Inr found \<Rightarrow>
          (case py_iter found of
             Inl e \<Rightarrow> (evs, Inl e)
           | Inr tracks \<Rightarrow>
               (let (evs', res') = collect_tracks ext self rest in
                (evs @ evs',
                 case res' of Inl e \<Rightarrow> Inl e | Inr tracks' \<Rightarrow> Inr (tracks @ tracks')))))"

definition get_all_tracks ::
  "externals \<Rightarrow> client \<Rightarrow> int list \<Rightarrow> int \<Rightarrow> event list \<times> (error + pyval list)" where
  "get_all_tracks ext self track_ids chunk_size =
     collect_tracks ext self (chunk_list track_ids chunk_size)"

text \<open>The default of the parameter \<open>chunk_size\<close>.\<close>

definition default_chunk_size :: int where
  "default_chunk_size = 30"

section \<open>A test double\<close>

text \<open>
  Concrete libraries and a concrete server, for running the model. Values are rendered
  as Python prints numbers and strings. The server answers a bulk lookup with the ids it
  was asked for, a search for \<open>deep\<close> with 2000 opening brackets, any other \<open>PUT\<close> with
  a page that is no JSON and any other request with \<open>{}\<close>. Decoding raises
  JSONDecodeError on that page and RecursionError on the 2000 brackets, as CPython's
  decoder does. A string validates (against any type) to the list of its comma-separated
  parts and nothing else validates. As pydantic's \<open>dump_json\<close> does, the serializer
  does not validate: it writes any payload as compact JSON, whatever the type it is given.
\<close>

text \<open>Compact JSON text of a value (of a string: quotes and backslashes escaped).\<close>

definition json_string :: "string \<Rightarrow> string" where
  "json_string s =
     CHR 0x22 # concat (map (\<lambda>c. if c = CHR 0x22 \<or> c = CHR 0x5C then [CHR 0x5C, c] else [c]) s)
       @ [CHR 0x22]"

fun json_text :: "pyval \<Rightarrow> string"
  and json_elems :: "pyval list \<Rightarrow> string list"
  and json_members :: "(string \<times> pyval) list \<Rightarrow> string list" where
  "json_text PNone = ''null''"
| "json_text (PBool b) = (if b then ''true'' else ''false'')"
| "json_text (PInt i) = str_int i"
| "json_text (PStr s) = json_string s"
| "json_text (PList l) = ''['' @ join '','' (json_elems l) @ '']''"
| "json_text (PDict d) = ''{'' @ join '','' (json_members d) @ ''}''"
| "json_text (PModel c fs) = ''{'' @ join '','' (json_members fs) @ ''}''"
| "json_elems [] = []"
| "json_elems (v # vs) = json_text v # json_elems vs"
| "json_members [] = []"
| "json_members ((k, v) # kvs) = (json_string k @ '':'' @ json_text v) # json_members kvs"

definition test_settings :: settings where
  "test_settings =
     \<lparr> s_base_url = ''https://api.test'', oauth_token = ''token'', datadome_clientid = ''dd'',
       client_id = ''client'', s_proxy = None, sc_a_id = ''sc'' \<rparr>"

definition test_server :: "request \<Rightarrow> error + response" where
  "test_server r =
     Inr \<lparr> status_code = 200, resp_url = req_url r,
           resp_content =
             (case dict_get (req_kwargs r) ''params'' of
                PDict q \<Rightarrow>
                  (case dict_get q ''ids'' of
                     PStr ids \<Rightarrow> ids
                   | _ \<Rightarrow> if dict_get q ''q'' = PStr ''deep'' then replicate 2000 CHR ''[''
                         else if req_method r = ''PUT'' then ''<html>'' else ''{}'')
              | _ \<Rightarrow> ''<html>'') \<rparr>"

definition test_externals :: externals where
  "test_externals =
     \<lparr> format_value = (\<lambda>v. case v of PInt i \<Rightarrow> str_int i | PStr s \<Rightarrow> s | _ \<Rightarrow> ''?''),
       json_loads = (\<lambda>body. if body = ''<html>'' then Inl JSONDecodeError
                             else if body = replicate 2000 CHR ''[''
                             then Inl (Raised ''RecursionError'')
                             else if body = ''{}'' then Inr (PDict [])
                             else Inr (PStr body)),
       dump_json = (\<lambda>t v. Inr (json_text v)),
       validate_python = (\<lambda>t v. case v of
                        PStr s \<Rightarrow> Inr (PList (map PStr (split_on CHR '','' s)))
                      | _ \<Rightarrow> Inl (Raised ''ValidationError'')),
       model_dump = (\<lambda>v. case v of PModel c fs \<Rightarrow> PDict fs | _ \<Rightarrow> v),
       requests_request = test_server,
       get_settings = test_settings \<rparr>"

definition test_client :: client where
  "test_client = init_client test_settings ''agent/1.0'' (s_base_url test_settings)"

section \<open>Dictionaries: what a lookup finds\<close>

lemma key_in_iff: "(k \<in> fst ` set d) = (\<exists>v. map_of d k = Some v)"
  by (metis map_of_eq_None_iff not_Some_eq)

lemma map_of_dict_setdefault:
  "map_of (dict_setdefault d k v) k' =
     (if k' = k \<and> map_of d k = None then Some v else map_of d k')"
  by (auto simp: dict_setdefault_def key_in_iff map_add_def split: option.splits)

section \<open>Requests\<close>

text \<open>
  A call of \<open>make_request\<close> either raises before anything happens, or calls
  \<open>requests.request\<close> once and returns what that call returns or raises.
\<close>

lemma make_request_cases:
  assumes "make_request ext self m u kw = (evs, res)"
  shows "(evs = [] \<and> isl res) \<or>
         (\<exists>req. res = requests_request ext req \<and> req_method req = m \<and> req_url req = u \<and>
            evs = [Log_making_request m u, Requested req] @
              (case res of Inl e \<Rightarrow> []
               | Inr resp \<Rightarrow> [Log_response (status_code resp) m (resp_url resp)]))"
  using assms
  by (auto simp: make_request_def Let_def split: sum.splits)

lemma decode_response_no_request:
  "decode_response ext response_model resp = (evs, out) \<Longrightarrow> Requested r \<notin> set evs"
  by (auto simp: decode_response_def split: option.splits sum.splits if_splits)

text \<open>
  The three ways a routed call can go: it raises before any request; the request itself
  raises; or the response comes back and is decoded.
\<close>

lemma caller_cases:
  assumes "caller ext self method path response_model ep kw = (evs, out)"
  shows "(\<forall>ev \<in> set evs. \<not> is_request ev) \<and> isl out \<or>
         (\<exists>req url. evs = [Log_making_request_to url, Log_making_request method url, Requested req] \<and>
              (\<exists>e. requests_request ext req = Inl e \<and> out = Inl e)) \<or>
         (\<exists>req url resp evs'. requests_request ext req = Inr resp \<and>
              decode_response ext response_model resp = (evs', out) \<and>
              evs = [Log_making_request_to url, Log_making_request method url, Requested req,
                     Log_response (status_code resp) method (resp_url resp)] @ evs')"
proof (cases "from_route ext ep path kw")
  case (Inl e)
  then show ?thesis using assms by (auto simp add: caller_def)
next
  case sp: (Inr sp)
  show ?thesis
  proof (cases "make_url ext self path (path_params sp)")
    case (Inl e)
    then show ?thesis using assms sp by (auto simp add: caller_def)
  next
    case url: (Inr url)
    show ?thesis
    proof (cases "request_kwargs sp (json_dump ext (PDict (query_params sp)))")
      case (Inl e)
      then show ?thesis using assms sp url by (auto simp add: caller_def Let_def)
    next
      case rkw: (Inr rkw)
      obtain evs1 res where mr: "make_request ext self method url rkw = (evs1, res)"
        by (cases "make_request ext self method url rkw") auto
      have out: "(evs, out) =
          (case res of
             Inl e \<Rightarrow> (Log_making_request_to url # evs1, Inl e)
           | Inr resp \<Rightarrow>
               (Log_making_request_to url # evs1 @ fst (decode_response ext response_model resp),
                snd (decode_response ext response_model resp)))"
        using assms sp url rkw mr
        by (simp add: caller_def Let_def split: sum.splits prod.splits)
      from make_request_cases [OF mr] consider
          (raised) "evs1 = []" "isl res"
        | (requested) req where "res = requests_request ext req"
            "evs1 = [Log_making_request method url, Requested req] @
              (case res of Inl e \<Rightarrow> []
               | Inr resp \<Rightarrow> [Log_response (status_code resp) method (resp_url resp)])"
        by blast
      then show ?thesis
      proof cases
        case raised
        then show ?thesis using out by (cases res) auto
      next
        case requested
        show ?thesis
        proof (cases res)
          case (Inl e)
          then show ?thesis using out requested by auto
        next
          case (Inr resp)
          then show ?thesis using out requested
            by (cases "decode_response ext response_model resp") auto
        qed
      qed
    qed
  qed
qed

lemma caller_requested:
  assumes c: "caller ext self method path response_model ep kw = (evs, out)"
    and r: "Requested req \<in> set evs"
  shows "(\<exists>e. requests_request ext req = Inl e \<and> out = Inl e) \<or>
         (\<exists>resp url. requests_request ext req = Inr resp \<and>
            out = snd (decode_response ext response_model resp) \<and>
            evs = [Log_making_request_to url, Log_making_request method url, Requested req,
                   Log_response (status_code resp) method (resp_url resp)]
                  @ fst (decode_response ext response_model resp))"
proof -
  from caller_cases [OF c] consider
      (quiet) "\<forall>ev \<in> set evs. \<not> is_request ev"
    | (raised) req' url e where
        "evs = [Log_making_request_to url, Log_making_request method url, Requested req']"
        "requests_request ext req' = Inl e" "out = Inl e"
    | (answered) req' url resp evs' where
        "requests_request ext req' = Inr resp"
        "decode_response ext response_model resp = (evs', out)"
        "evs = [Log_making_request_to url, Log_making_request method url, Requested req',
                Log_response (status_code resp) method (resp_url resp)] @ evs'"
    by blast
  then show ?thesis
  proof cases
    case quiet
    with r have "\<not> is_request (Requested req)" by blast
    then show ?thesis by simp
  next
    case raised
    with r have "req' = req" by simp
    with raised show ?thesis by simp
  next
    case answered
    from decode_response_no_request [OF answered(2)] have "Requested req \<notin> set evs'" .
    with r answered(3) have "req' = req" by simp
    with answered show ?thesis by simp
  qed
qed

section \<open>Precedence between the caller's values and the client's defaults\<close>

text \<open>
  C1. The claim: where a query parameter or header of the caller has the key of a default
  of the client, the caller's value is the one sent. The code: \<open>make_request\<close> builds
  \<open>kwargs.get("headers", {}) | self.headers\<close> and
  \<open>kwargs.get("params", {}) | self.params\<close>, and in \<open>a | b\<close> the right operand wins.
  Run on a caller's \<open>User-Agent\<close> header and \<open>client_id\<close> parameter, the request goes
  out with the client's \<open>agent/1.0\<close> and \<open>client\<close>; the caller's \<open>mine\<close> and \<open>other\<close>
  are dropped, while the caller's own key \<open>page\<close> is kept.
\<close>

theorem make_request_drops_caller_values:
  "fst (make_request test_externals test_client ''GET'' ''https://api.test/me''
          [(''headers'', PDict [(''User-Agent'', PStr ''mine'')]),
           (''params'', PDict [(''client_id'', PStr ''other''), (''page'', PInt 2)])])
   = [Log_making_request ''GET'' ''https://api.test/me'',
      Requested \<lparr> req_method = ''GET'', req_url = ''https://api.test/me'',
        req_kwargs =
          [(''headers'', PDict [(''User-Agent'', PStr ''agent/1.0''),
                                (''Authorization'', PStr ''OAuth token''),
                                (''x-datadome-clientid'', PStr ''dd'')]),
           (''params'', PDict [(''client_id'', PStr ''client''), (''page'', PInt 2),
                               (''app_version'', PStr ''1739181955''),
                               (''app_locale'', PStr ''en'')]),
           (''verify'', PBool False)] \<rparr>,
      Log_response 200 ''GET'' ''https://api.test/me'']"
  by code_simp

section \<open>Responses that are no JSON, responses that fail validation\<close>

text \<open>
  C2 as stated does not hold: not every body that fails to parse ends in \<open>None\<close>.
  The \<open>except\<close> clause of line 72 names \<open>json.decoder.JSONDecodeError\<close> only. A body of
  2000 opening brackets is no JSON, and decoding it ends with RecursionError, which the
  clause does not catch: the search below raises it, and nothing is logged about the
  decoding.
\<close>

theorem deeply_nested_body_raises:
  "json_loads test_externals (replicate 2000 CHR ''['') = Inl (Raised ''RecursionError'')
   \<and> call_route test_externals test_client search [(''q'', PStr ''deep'')]
      = ([Log_making_request_to ''https://api.test/search'',
          Log_making_request ''GET'' ''https://api.test/search'',
          Requested \<lparr> req_method = ''GET'', req_url = ''https://api.test/search'',
            req_kwargs =
              [(''data'', PNone),
               (''params'', PDict [(''limit'', PInt 20), (''offset'', PInt 0),
                                   (''q'', PStr ''deep''),
                                   (''client_id'', PStr ''client''),
                                   (''app_version'', PStr ''1739181955''),
                                   (''app_locale'', PStr ''en'')]),
               (''headers'', PDict [(''Authorization'', PStr ''OAuth token''),
                                    (''User-Agent'', PStr ''agent/1.0''),
                                    (''x-datadome-clientid'', PStr ''dd'')]),
               (''verify'', PBool False)] \<rparr>,
          Log_response 200 ''GET'' ''https://api.test/search''],
         Inl (Raised ''RecursionError''))"
  by code_simp

text \<open>
  C2, amended. Whenever a routed call got a response whose body \<open>response.json()\<close>
  rejects with JSONDecodeError, the call returns \<open>None\<close> and the last thing it did was
  to log the failure with the status and the body; it does not raise. This holds for
  every status code and body, every route and every response model.
\<close>

theorem undecodable_response_gives_none:
  assumes "Requested req \<in> set (fst (caller ext self method path response_model ep kw))"
    and "requests_request ext req = Inr resp"
    and "json_loads ext (resp_content resp) = Inl JSONDecodeError"
  shows "snd (caller ext self method path response_model ep kw) = Inr PNone
       \<and> last (fst (caller ext self method path response_model ep kw)) =
           Log_decode_failed (status_code resp) (resp_content resp)"
proof -
  obtain evs out where c: "caller ext self method path response_model ep kw = (evs, out)"
    by (cases "caller ext self method path response_model ep kw") auto
  with assms(1) have "Requested req \<in> set evs" by simp
  from caller_requested [OF c this] assms(2,3) c show ?thesis
    by (auto simp: decode_response_def)
qed

theorem undecodable_response_gives_none_witness:
  "(\<exists>req resp.
      Requested req \<in> set (fst (caller test_externals test_client ''PUT''
         (r_path update_playlist_image) (r_response_model update_playlist_image)
         (r_endpoint update_playlist_image)
         [(''playlist_urn'', PStr ''u1''), (''data'', PModel ''PlaylistUpdateImageRequest'' [])]))
      \<and> requests_request test_externals req = Inr resp
      \<and> json_loads test_externals (resp_content resp) = Inl JSONDecodeError)
   \<and> snd (caller test_externals test_client ''PUT''
         (r_path update_playlist_image) (r_response_model update_playlist_image)
         (r_endpoint update_playlist_image)
         [(''playlist_urn'', PStr ''u1''), (''data'', PModel ''PlaylistUpdateImageRequest'' [])])
       = Inr PNone
   \<and> last (fst (caller test_externals test_client ''PUT''
         (r_path update_playlist_image) (r_response_model update_playlist_image)
         (r_endpoint update_playlist_image)
         [(''playlist_urn'', PStr ''u1''), (''data'', PModel ''PlaylistUpdateImageRequest'' [])]))
       = Log_decode_failed 200 ''<html>''"
proof -
  define req where "req = \<lparr> req_method = ''PUT'',
       req_url = ''https://api.test/playlists/u1/artwork'',
       req_kwargs =
         [(''data'', PStr ''{}''),
          (''params'', PDict (params test_client)),
          (''headers'', PDict (headers test_client)),
          (''verify'', PBool False)] \<rparr>"
  define resp where "resp = \<lparr> status_code = 200,
       resp_url = ''https://api.test/playlists/u1/artwork'', resp_content = ''<html>'' \<rparr>"
  have h1: "Requested req \<in> set (fst (caller test_externals test_client ''PUT''
         (r_path update_playlist_image) (r_response_model update_playlist_image)
         (r_endpoint update_playlist_image)
         [(''playlist_urn'', PStr ''u1''), (''data'', PModel ''PlaylistUpdateImageRequest'' [])]))"
    unfolding req_def by code_simp
  have h2: "requests_request test_externals req = Inr resp"
    unfolding req_def resp_def by code_simp
  have h3: "json_loads test_externals (resp_content resp) = Inl JSONDecodeError"
    unfolding resp_def by code_simp
  from undecodable_response_gives_none [OF h1 h2 h3] h1 h2 h3 show ?thesis
    by (auto simp: resp_def)
qed

text \<open>
  C3. Whenever a routed call with a response model got a response whose body parses as
  JSON and the parsed value fails validation against the model, the call raises the
  validation error.
\<close>

theorem invalid_response_raises:
  assumes "Requested req \<in> set (fst (caller ext self method path (Some model) ep kw))"
    and "requests_request ext req = Inr resp"
    and "json_loads ext (resp_content resp) = Inr response_data"
    and "validate_python ext model response_data = Inl e"
  shows "snd (caller ext self method path (Some model) ep kw) = Inl e"
proof -
  obtain evs out where c: "caller ext self method path (Some model) ep kw = (evs, out)"
    by (cases "caller ext self method path (Some model) ep kw") auto
  with assms(1) have "Requested req \<in> set evs" by simp
  from caller_requested [OF c this] assms(2,3,4) c show ?thesis
    by (auto simp: decode_response_def)
qed

theorem invalid_response_raises_witness:
  "(\<exists>req resp.
      Requested req \<in> set (fst (caller test_externals test_client ''GET''
         (r_path search) (Some ''Search'') (r_endpoint search) [(''q'', PStr ''x'')]))
      \<and> requests_request test_externals req = Inr resp
      \<and> json_loads test_externals (resp_content resp) = Inr (PDict [])
      \<and> validate_python test_externals ''Search'' (PDict []) = Inl (Raised ''ValidationError''))
   \<and> snd (caller test_externals test_client ''GET''
         (r_path search) (Some ''Search'') (r_endpoint search) [(''q'', PStr ''x'')])
       = Inl (Raised ''ValidationError'')"
proof -
  define req where "req = \<lparr> req_method = ''GET'', req_url = ''https://api.test/search'',
       req_kwargs =
         [(''data'', PNone),
          (''params'', PDict ([(''limit'', PInt 20), (''offset'', PInt 0), (''q'', PStr ''x'')]
                               @ params test_client)),
          (''headers'', PDict (headers test_client)),
          (''verify'', PBool False)] \<rparr>"
  define resp where "resp = \<lparr> status_code = 200,
       resp_url = ''https://api.test/search'', resp_content = ''{}'' \<rparr>"
  have h1: "Requested req \<in> set (fst (caller test_externals test_client ''GET''
         (r_path search) (Some ''Search'') (r_endpoint search) [(''q'', PStr ''x'')]))"
    unfolding req_def by code_simp
  have h2: "requests_request test_externals req = Inr resp"
    unfolding req_def resp_def by code_simp
  have h3: "json_loads test_externals (resp_content resp) = Inr (PDict [])"
    unfolding resp_def by code_simp
  have h4: "validate_python test_externals ''Search'' (PDict []) = Inl (Raised ''ValidationError'')"
    by code_simp
  from invalid_response_raises [OF h1 h2 h3 h4] h1 h2 h3 h4 show ?thesis
    by blast
qed

section \<open>Certificate verification\<close>

text \<open>
  C9. A request that \<open>make_request\<close> issues carries \<open>verify\<close>: the value the caller
  gave under that name if there is one, and \<open>False\<close> otherwise. The client never turns
  verification on by itself.
\<close>

theorem make_request_verify:
  assumes "Requested req \<in> set (fst (make_request ext self method url kw))"
  shows "map_of (req_kwargs req) ''verify'' =
           (case map_of kw ''verify'' of None \<Rightarrow> Some (PBool False) | Some v \<Rightarrow> Some v)"
  using assms
  by (auto simp: make_request_def Let_def map_of_dict_setdefault update_conv'
           split: sum.splits option.splits)

theorem make_request_verify_witness:
  "Requested \<lparr> req_method = ''GET'', req_url = ''https://api.test/me'',
       req_kwargs = [(''params'', PDict (params test_client)),
                     (''headers'', PDict (headers test_client)),
                     (''verify'', PBool False)] \<rparr>
     \<in> set (fst (make_request test_externals test_client ''GET'' ''https://api.test/me'' []))
   \<and> map_of [(''params'', PDict (params test_client)),
              (''headers'', PDict (headers test_client)),
              (''verify'', PBool False)] ''verify'' = Some (PBool False)"
proof -
  have sent: "Requested \<lparr> req_method = ''GET'', req_url = ''https://api.test/me'',
       req_kwargs = [(''params'', PDict (params test_client)),
                     (''headers'', PDict (headers test_client)),
                     (''verify'', PBool False)] \<rparr>
     \<in> set (fst (make_request test_externals test_client ''GET'' ''https://api.test/me'' []))"
    by code_simp
  from make_request_verify [OF sent] sent show ?thesis by simp
qed

section \<open>Bulk lookup: no ids\<close>

text \<open>
  C10. With an empty list of track ids (and a positive chunk size, such as the default)
  \<open>get_all_tracks\<close> does nothing at all, so it issues no request, and returns the
  empty list.
\<close>

theorem get_all_tracks_empty:
  "0 < chunk_size \<Longrightarrow> get_all_tracks ext self [] chunk_size = ([], Inr [])"
  by (simp add: get_all_tracks_def chunk_list.simps)

theorem get_all_tracks_empty_witness:
  "0 < default_chunk_size
   \<and> get_all_tracks test_externals test_client [] default_chunk_size = ([], Inr [])
   \<and> requests_of (fst (get_all_tracks test_externals test_client [] default_chunk_size)) = []"
proof -
  have pos: "0 < default_chunk_size" by (simp add: default_chunk_size_def)
  from get_all_tracks_empty [OF pos] pos show ?thesis by simp
qed

section \<open>The pagination cursor: what it returns\<close>

lemma split_on_no_sep: "c \<notin> set s \<Longrightarrow> split_on c s = [s]"
  by (induction s) auto

lemma unquote_no_percent: "CHR ''%'' \<notin> set s \<Longrightarrow> unquote s = s"
  by (induction s rule: unquote.induct) auto

lemma unquote_plus_plain:
  "CHR ''%'' \<notin> set s \<Longrightarrow> CHR ''+'' \<notin> set s \<Longrightarrow> unquote_plus s = s"
proof -
  assume p: "CHR ''%'' \<notin> set s" and q: "CHR ''+'' \<notin> set s"
  from q have "map (\<lambda>c. if c = CHR ''+'' then CHR '' '' else c) s = s"
    by (induction s) auto
  with p show ?thesis by (simp add: unquote_plus_def unquote_no_percent)
qed

lemma split_first_append: "c \<notin> set xs \<Longrightarrow> split_first c (xs @ c # ys) = Some (xs, ys)"
  by (induction xs) (auto simp: split_first_def)

lemma url_query_append:
  assumes "CHR ''?'' \<notin> set base" "CHR ''#'' \<notin> set base" "CHR ''#'' \<notin> set q"
    and "\<forall>c \<in> set q. \<not> unsafe_url_char c"
  shows "url_query (base @ CHR ''?'' # q) = q"
proof -
  let ?b = "filter (\<lambda>c. \<not> unsafe_url_char c) base"
  have f: "filter (\<lambda>c. \<not> unsafe_url_char c) (base @ CHR ''?'' # q) = ?b @ CHR ''?'' # q"
    using assms(4) by (simp add: unsafe_url_char_def)
  have nb: "CHR ''?'' \<notin> set ?b" "CHR ''#'' \<notin> set ?b" using assms(1,2) by auto
  have t: "takeWhile (\<lambda>c. c \<noteq> CHR ''#'') (?b @ CHR ''?'' # q) = ?b @ CHR ''?'' # q"
    using nb(2) assms(3) by (intro takeWhile_eq_all_conv [THEN iffD2]) auto
  have s: "split_first CHR ''?'' (?b @ CHR ''?'' # q) = Some (?b, q)"
    using nb(1) by (rule split_first_append)
  show ?thesis by (simp add: url_query_def f t s del: filter_append)
qed

lemma parse_qs_fold_keys:
  "dom (map_of (fold (\<lambda>(name, val) res.
             case map_of res name of
               Some vals \<Rightarrow> AList.update name (vals @ [val]) res
             | None \<Rightarrow> res @ [(name, [val])]) pairs acc)) = dom (map_of acc) \<union> fst ` set pairs"
proof (induction pairs arbitrary: acc)
  case Nil
  then show ?case by simp
next
  case (Cons p pairs)
  obtain n v where p: "p = (n, v)" by (cases p)
  show ?case
  proof (cases "map_of acc n")
    case None
    have "dom (map_of (acc @ [(n, [v])])) = insert n (dom (map_of acc))"
      by (auto simp: dom_map_of_conv_image_fst)
    then show ?thesis using Cons.IH [of "acc @ [(n, [v])]"] p None by simp
  next
    case (Some vals)
    have "dom (map_of (AList.update n (vals @ [v]) acc)) = insert n (dom (map_of acc))"
      by (simp add: update_conv')
    then show ?thesis using Cons.IH [of "AList.update n (vals @ [v]) acc"] p Some by simp
  qed
qed

lemma parse_qs_absent:
  "k \<notin> fst ` set (parse_qsl qs) \<Longrightarrow> map_of (parse_qs qs) k = None"
proof -
  assume "k \<notin> fst ` set (parse_qsl qs)"
  then have "k \<notin> dom (map_of (parse_qs qs))"
    unfolding parse_qs_def parse_qs_fold_keys by simp
  then show ?thesis by (simp add: domIff)
qed

lemma parse_qs_single: "parse_qsl qs = [(k, v)] \<Longrightarrow> parse_qs qs = [(k, [v])]"
  by (simp add: parse_qs_def)

lemma offset_field:
  assumes "v \<noteq> []" "CHR ''%'' \<notin> set v" "CHR ''+'' \<notin> set v"
  shows "parse_field (''offset='' @ v) = [(''offset'', v)]"
proof -
  have "unquote_plus ''offset'' = ''offset''" by (simp add: unquote_plus_def)
  then show ?thesis
    using assms by (simp add: parse_field_def split_first_def unquote_plus_plain)
qed


lemma parse_qs_fold_lookup:
  "map_of (fold (\<lambda>(name, val) res.
             case map_of res name of
               Some vals \<Rightarrow> AList.update name (vals @ [val]) res
             | None \<Rightarrow> res @ [(name, [val])]) pairs acc) k =
   (let vs = map snd (filter (\<lambda>(n, v). n = k) pairs) in
    if vs = [] then map_of acc k
    else Some ((case map_of acc k of None \<Rightarrow> [] | Some old \<Rightarrow> old) @ vs))"
proof (induction pairs arbitrary: acc)
  case Nil
  then show ?case by simp
next
  case (Cons p pairs)
  obtain n v where p: "p = (n, v)" by (cases p)
  show ?case
  proof (cases "map_of acc n")
    case None
    have l: "map_of (acc @ [(n, [v])]) k = (if k = n then Some [v] else map_of acc k)"
      using None by (auto simp: map_add_def split: option.splits)
    show ?thesis using Cons.IH [of "acc @ [(n, [v])]"] p None l
      by (auto simp: Let_def)
  next
    case (Some vals)
    have l: "map_of (AList.update n (vals @ [v]) acc) k =
               (if k = n then Some (vals @ [v]) else map_of acc k)"
      by (simp add: update_conv')
    show ?thesis using Cons.IH [of "AList.update n (vals @ [v]) acc"] p Some l
      by (auto simp: Let_def)
  qed
qed

lemma get_next_offset_first:
  assumes "href \<noteq> []" "\<not> rejected href"
  shows "get_next_offset rejected (Some href) =
           Inr (case filter (\<lambda>(n, v). n = ''offset'') (parse_qsl (url_query href)) of
                  [] \<Rightarrow> None
                | (n, v) # _ \<Rightarrow> Some v)"
  using assms
  by (auto simp: get_next_offset_def parse_qs_def parse_qs_fold_lookup Let_def
           split: list.splits option.splits)

text \<open>
  C5. \<open>get_next_offset\<close> returns nothing for an absent URL and for the empty one; for
  a URL \<open>...?offset=v\<close> that \<open>urlsplit\<close> accepts (\<open>v\<close> not empty and free of
  \<open>&\<close>, \<open>#\<close>, \<open>%\<close>, \<open>+\<close>, tabs and line breaks) it returns \<open>v\<close>; in general it
  returns the value of the first query field named \<open>offset\<close>; and it returns nothing
  when no field of the query string has that name. It is a function of the URL alone: it
  takes no client and gives back no event.
\<close>

theorem get_next_offset_cursor:
  "get_next_offset rejected None = Inr None
   \<and> get_next_offset rejected (Some []) = Inr None
   \<and> (\<forall>base v.
         CHR ''?'' \<notin> set base \<and> CHR ''#'' \<notin> set base \<and> v \<noteq> []
         \<and> (\<forall>c \<in> set v. c \<notin> set ''&#%+'' \<and> \<not> unsafe_url_char c)
         \<and> \<not> rejected (base @ ''?offset='' @ v)
         \<longrightarrow> get_next_offset rejected (Some (base @ ''?offset='' @ v)) = Inr (Some v))
   \<and> (\<forall>href v rest.
         href \<noteq> [] \<and> \<not> rejected href
         \<and> filter (\<lambda>(n, v). n = ''offset'') (parse_qsl (url_query href)) = (''offset'', v) # rest
         \<longrightarrow> get_next_offset rejected (Some href) = Inr (Some v))
   \<and> (\<forall>href.
         \<not> rejected href \<and> ''offset'' \<notin> fst ` set (parse_qsl (url_query href))
         \<longrightarrow> get_next_offset rejected (Some href) = Inr None)"
proof (intro conjI allI impI)
  show "get_next_offset rejected None = Inr None"
    by (simp add: get_next_offset_def)
  show "get_next_offset rejected (Some []) = Inr None"
    by (simp add: get_next_offset_def)
next
  fix base v
  assume a: "CHR ''?'' \<notin> set base \<and> CHR ''#'' \<notin> set base \<and> v \<noteq> []
         \<and> (\<forall>c \<in> set v. c \<notin> set ''&#%+'' \<and> \<not> unsafe_url_char c)
         \<and> \<not> rejected (base @ ''?offset='' @ v)"
  let ?q = "''offset='' @ v"
  have q: "url_query (base @ CHR ''?'' # ?q) = ?q"
    using a by (intro url_query_append) (auto simp: unsafe_url_char_def)
  have "CHR ''&'' \<notin> set ?q" using a by auto
  then have "split_on CHR ''&'' ?q = [?q]" by (rule split_on_no_sep)
  moreover have "parse_field ?q = [(''offset'', v)]"
    using a by (intro offset_field) auto
  ultimately have "parse_qsl ?q = [(''offset'', v)]" by (simp add: parse_qsl_def)
  with q have "filter (\<lambda>(n, v). n = ''offset'') (parse_qsl (url_query (base @ CHR ''?'' # ?q)))
                 = [(''offset'', v)]" by simp
  moreover have "base @ CHR ''?'' # ?q \<noteq> []" by simp
  moreover have "\<not> rejected (base @ CHR ''?'' # ?q)" using a by simp
  ultimately have "get_next_offset rejected (Some (base @ CHR ''?'' # ?q)) = Inr (Some v)"
    by (simp add: get_next_offset_first)
  then show "get_next_offset rejected (Some (base @ ''?offset='' @ v)) = Inr (Some v)" by simp
next
  fix href v rest
  assume "href \<noteq> [] \<and> \<not> rejected href
         \<and> filter (\<lambda>(n, v). n = ''offset'') (parse_qsl (url_query href)) = (''offset'', v) # rest"
  then show "get_next_offset rejected (Some href) = Inr (Some v)"
    by (simp add: get_next_offset_first)
next
  fix href
  assume a: "\<not> rejected href \<and> ''offset'' \<notin> fst ` set (parse_qsl (url_query href))"
  show "get_next_offset rejected (Some href) = Inr None"
  proof (cases "href = []")
    case True
    then show ?thesis by (simp add: get_next_offset_def)
  next
    case False
    from a have "filter (\<lambda>(n, v). n = ''offset'') (parse_qsl (url_query href)) = []"
      by (force simp: filter_empty_conv)
    with False a show ?thesis by (simp add: get_next_offset_first)
  qed
qed

theorem get_next_offset_cursor_witness:
  "get_next_offset (\<lambda>u. False) (Some ''https://api.test/users/1/likes?offset=ABC'') = Inr (Some ''ABC'')
   \<and> get_next_offset (\<lambda>u. False) (Some ''https://api.test/users/1/likes?limit=5&offset=ABC&offset=Z'')
       = Inr (Some ''ABC'')
   \<and> get_next_offset (\<lambda>u. False) (Some ''https://api.test/users/1/likes?limit=5'') = Inr None"
proof -
  let ?r = "\<lambda>u::string. False"
  have h1: "CHR ''?'' \<notin> set ''https://api.test/users/1/likes''
         \<and> CHR ''#'' \<notin> set ''https://api.test/users/1/likes'' \<and> ''ABC'' \<noteq> []
         \<and> (\<forall>c \<in> set ''ABC''. c \<notin> set ''&#%+'' \<and> \<not> unsafe_url_char c)
         \<and> \<not> ?r (''https://api.test/users/1/likes'' @ ''?offset='' @ ''ABC'')"
    by (simp add: unsafe_url_char_def)
  have h2: "''https://api.test/users/1/likes?limit=5&offset=ABC&offset=Z'' \<noteq> []
         \<and> \<not> ?r ''https://api.test/users/1/likes?limit=5&offset=ABC&offset=Z''
         \<and> filter (\<lambda>(n, v). n = ''offset'')
              (parse_qsl (url_query ''https://api.test/users/1/likes?limit=5&offset=ABC&offset=Z''))
            = (''offset'', ''ABC'') # [(''offset'', ''Z'')]"
    by code_simp
  have h3: "\<not> ?r ''https://api.test/users/1/likes?limit=5''
         \<and> ''offset'' \<notin> fst ` set (parse_qsl (url_query ''https://api.test/users/1/likes?limit=5''))"
    by code_simp
  note c = get_next_offset_cursor [of ?r]
  from c h1 have "get_next_offset ?r (Some (''https://api.test/users/1/likes'' @ ''?offset='' @ ''ABC''))
      = Inr (Some ''ABC'')" by blast
  moreover from c h2 have
    "get_next_offset ?r (Some ''https://api.test/users/1/likes?limit=5&offset=ABC&offset=Z'')
      = Inr (Some ''ABC'')" by blast
  moreover from c h3 have
    "get_next_offset ?r (Some ''https://api.test/users/1/likes?limit=5'') = Inr None" by blast
  ultimately show ?thesis by simp
qed

section \<open>Bulk lookup: the batches\<close>

lemma chunk_list_Nil [simp]: "chunk_list [] n = []"
  by (simp add: chunk_list.simps)

lemma chunk_list_step:
  "0 < n \<Longrightarrow> xs \<noteq> [] \<Longrightarrow> chunk_list xs n = take (nat n) xs # chunk_list (drop (nat n) xs) n"
  by (subst chunk_list.simps) simp

lemma concat_chunk_list: "0 < n \<Longrightarrow> concat (chunk_list xs n) = xs"
proof (induction xs n rule: chunk_list.induct)
  case (1 xs n)
  show ?case
  proof (cases "xs = []")
    case True
    then show ?thesis by simp
  next
    case False
    with 1 show ?thesis by (simp add: chunk_list_step)
  qed
qed

lemma ceil_div_one: "0 < m \<Longrightarrow> m \<le> k \<Longrightarrow> (m + k - 1) div k = (1::nat)"
  by (rule div_nat_eqI) simp_all

lemma length_chunk_list:
  "0 < n \<Longrightarrow> length (chunk_list xs n) = (length xs + nat n - 1) div nat n"
proof (induction xs n rule: chunk_list.induct)
  case (1 xs n)
  show ?case
  proof (cases "xs = []")
    case True
    then show ?thesis using 1(2) by simp
  next
    case False
    then have ih: "length (chunk_list (drop (nat n) xs) n) = (length xs - nat n + nat n - 1) div nat n"
      using 1 by simp
    have pos: "0 < nat n" using 1(2) by simp
    have lpos: "0 < length xs" using False by simp
    show ?thesis
    proof (cases "length xs \<le> nat n")
      case True
      have "(length xs + nat n - 1) div nat n = 1"
        by (rule ceil_div_one [OF lpos True])
      with True ih False 1(2) pos show ?thesis by (simp add: chunk_list_step)
    next
      case g: False
      then have "length xs + nat n - 1 = (length xs - nat n + nat n - 1) + nat n" by simp
      then have "(length xs + nat n - 1) div nat n = (length xs - nat n + nat n - 1) div nat n + 1"
        using pos by (metis div_add_self2 less_numeral_extra(3))
      with ih False 1(2) show ?thesis by (simp add: chunk_list_step)
    qed
  qed
qed

lemma nth_chunk_list:
  "0 < n \<Longrightarrow> i < length (chunk_list xs n) \<Longrightarrow>
     chunk_list xs n ! i = take (nat n) (drop (i * nat n) xs)"
proof (induction xs n arbitrary: i rule: chunk_list.induct)
  case (1 xs n)
  from 1(3) have ne: "xs \<noteq> []" by auto
  show ?case
  proof (cases i)
    case 0
    then show ?thesis using ne 1(2) by (simp add: chunk_list_step)
  next
    case (Suc j)
    with 1(3) ne 1(2) have "j < length (chunk_list (drop (nat n) xs) n)"
      by (simp add: chunk_list_step)
    with 1(1) ne 1(2) have "chunk_list (drop (nat n) xs) n ! j = take (nat n) (drop (j * nat n) (drop (nat n) xs))"
      by simp
    then show ?thesis using Suc ne 1(2) by (simp add: chunk_list_step add.commute)
  qed
qed


lemma requests_of_append [simp]: "requests_of (xs @ ys) = requests_of xs @ requests_of ys"
  by (induction xs rule: requests_of.induct) auto

lemma requests_of_decode [simp]: "requests_of (fst (decode_response ext m resp)) = []"
  by (simp add: decode_response_def split: option.splits sum.splits)

lemma requests_of_decodeD:
  "decode_response ext m resp = (evs, out) \<Longrightarrow> requests_of evs = []"
  using requests_of_decode [of ext m resp] by simp

lemma from_route_get_tracks:
  "from_route ext (r_endpoint get_tracks_route) (r_path get_tracks_route) [(''ids'', PStr s)]
     = Inr \<lparr> path_params = [], query_params = [(''ids'', PStr s)], data = PNone,
             content = None, kwargs = [] \<rparr>"
  by (simp add: from_route_def get_default_kwargs_def get_tracks_route_def declared_def
        compile_path_def
        dict_union_def dict_pop_def dict_get_def dict_get_default_def py_or_def as_dict_def
        dump_content_def)

lemma make_request_sends:
  assumes p: "union_operand kw ''params'' = Inr p"
    and h: "union_operand (AList.update ''params'' (PDict (dict_union p (params self))) kw) ''headers'' = Inr h"
  shows "\<exists>req. requests_of (fst (make_request ext self m u kw)) = [req]
           \<and> map_of (req_kwargs req) ''params'' = Some (PDict (dict_union p (params self)))"
  using p h
  by (simp add: make_request_def Let_def map_of_dict_setdefault update_conv'
        split: sum.splits)

lemma caller_requests:
  assumes "from_route ext ep path kw = Inr sp"
    and "make_url ext self path (path_params sp) = Inr url"
    and "request_kwargs sp (json_dump ext (PDict (query_params sp))) = Inr rkw"
  shows "requests_of (fst (caller ext self method path response_model ep kw))
           = requests_of (fst (make_request ext self method url rkw))"
  using assms
  by (auto simp add: caller_def Let_def requests_of_decodeD split: sum.splits prod.splits)

lemma get_tracks_requests:
  "\<exists>req. requests_of (fst (get_tracks ext (init_client st ua b) s)) = [req]
         \<and> query_param req ''ids'' = Some (PStr s)"
proof -
  let ?self = "init_client st ua b"
  let ?sp = "\<lparr> path_params = [], query_params = [(''ids'', PStr s)], data = PNone,
             content = None, kwargs = [] \<rparr>"
  let ?rkw = "[(''data'', PNone), (''params'', PDict [(''ids'', PStr s)])]"
  have u: "make_url ext ?self (r_path get_tracks_route) (path_params ?sp) = Inr (b @ ''/tracks'')"
    by (simp add: make_url_def get_tracks_route_def init_client_def)
  have k: "request_kwargs ?sp (json_dump ext (PDict (query_params ?sp))) = Inr ?rkw"
    by (simp add: request_kwargs_def json_dump_def)
  have r: "requests_of (fst (get_tracks ext ?self s))
         = requests_of (fst (make_request ext ?self ''GET'' (b @ ''/tracks'') ?rkw))"
    unfolding get_tracks_def call_route_def
    using caller_requests [OF from_route_get_tracks u k, of "r_method get_tracks_route" "r_response_model get_tracks_route"]
    by (simp add: get_tracks_route_def)
  have p: "union_operand ?rkw ''params'' = Inr [(''ids'', PStr s)]"
    by (simp add: union_operand_def dict_get_default_def)
  have h: "union_operand (AList.update ''params'' (PDict (dict_union [(''ids'', PStr s)] (params ?self))) ?rkw) ''headers'' = Inr []"
    by (simp add: union_operand_def dict_get_default_def)
  from make_request_sends [OF p h, of ext "''GET''" "b @ ''/tracks''"] obtain req where
    req: "requests_of (fst (make_request ext ?self ''GET'' (b @ ''/tracks'') ?rkw)) = [req]"
      "map_of (req_kwargs req) ''params'' = Some (PDict (dict_union [(''ids'', PStr s)] (params ?self)))"
    by blast
  have "map_of (dict_union [(''ids'', PStr s)] (params ?self)) ''ids'' = Some (PStr s)"
    by (simp add: dict_union_def init_client_def)
  with req r show ?thesis by (simp add: query_param_def)
qed


lemma collect_tracks_ok:
  assumes "\<forall>c \<in> set chunks. snd (get_tracks ext self (prepare_track_ids c)) = Inr (PList (map track c))"
  shows "snd (collect_tracks ext self chunks) = Inr (map track (concat chunks))
       \<and> requests_of (fst (collect_tracks ext self chunks)) =
           concat (map (\<lambda>c. requests_of (fst (get_tracks ext self (prepare_track_ids c)))) chunks)"
  using assms
proof (induction chunks)
  case Nil
  then show ?case by simp
next
  case (Cons c chunks)
  obtain evs where g: "get_tracks ext self (prepare_track_ids c) = (evs, Inr (PList (map track c)))"
    using Cons.prems by (cases "get_tracks ext self (prepare_track_ids c)") auto
  obtain evs' res' where r: "collect_tracks ext self chunks = (evs', res')"
    by (cases "collect_tracks ext self chunks") auto
  from Cons have ih: "res' = Inr (map track (concat chunks))"
    "requests_of evs' = concat (map (\<lambda>c. requests_of (fst (get_tracks ext self (prepare_track_ids c)))) chunks)"
    using r by auto
  show ?case using g r ih by simp
qed

text \<open>
  C6. With a positive chunk size \<open>n\<close> (30 by default), and a server that answers each
  bulk lookup with the tracks of the ids asked for, in that order: \<open>get_all_tracks\<close>
  issues one request for each batch, in the order of the batches and with the ids of that
  batch; the batches are the consecutive slices of \<open>n\<close> ids, so there are
  \<open>ceil(len / n)\<close> of them (75 ids: 30, 30 and 15); and the result holds the track of
  every id in the order of the ids.
\<close>

theorem get_all_tracks_batches:
  assumes "0 < n"
    and "\<forall>c \<in> set (chunk_list track_ids n).
           snd (get_tracks ext (init_client st ua b) (prepare_track_ids c)) = Inr (PList (map track c))"
  shows "snd (get_all_tracks ext (init_client st ua b) track_ids n) = Inr (map track track_ids)
     \<and> map (\<lambda>r. query_param r ''ids'')
           (requests_of (fst (get_all_tracks ext (init_client st ua b) track_ids n)))
         = map (\<lambda>c. Some (PStr (prepare_track_ids c))) (chunk_list track_ids n)
     \<and> length (chunk_list track_ids n) = (length track_ids + nat n - 1) div nat n
     \<and> (\<forall>i < length (chunk_list track_ids n).
           chunk_list track_ids n ! i = take (nat n) (drop (i * nat n) track_ids))"
proof -
  let ?self = "init_client st ua b"
  let ?chunks = "chunk_list track_ids n"
  note ok = collect_tracks_ok [OF assms(2)]
  have res: "snd (get_all_tracks ext ?self track_ids n) = Inr (map track track_ids)"
    using ok assms(1) by (simp add: get_all_tracks_def concat_chunk_list)
  have one: "map (\<lambda>r. query_param r ''ids'')
               (concat (map (\<lambda>c. requests_of (fst (get_tracks ext ?self (prepare_track_ids c)))) cs))
             = map (\<lambda>c. Some (PStr (prepare_track_ids c))) cs" for cs
  proof (induction cs)
    case Nil
    then show ?case by simp
  next
    case (Cons c cs)
    from get_tracks_requests [of ext st ua b "prepare_track_ids c"] obtain req where
      "requests_of (fst (get_tracks ext ?self (prepare_track_ids c))) = [req]"
      "query_param req ''ids'' = Some (PStr (prepare_track_ids c))" by blast
    with Cons show ?case by simp
  qed
  have reqs: "map (\<lambda>r. query_param r ''ids'') (requests_of (fst (get_all_tracks ext ?self track_ids n)))
         = map (\<lambda>c. Some (PStr (prepare_track_ids c))) ?chunks"
    using ok one [of ?chunks] by (simp add: get_all_tracks_def)
  show ?thesis
    using res reqs length_chunk_list [OF assms(1)] nth_chunk_list [OF assms(1)] by blast
qed

theorem get_all_tracks_batches_witness:
  "snd (get_all_tracks test_externals test_client [1..75] default_chunk_size)
     = Inr (map (\<lambda>i. PStr (str_int i)) [1..75])
   \<and> length (requests_of (fst (get_all_tracks test_externals test_client [1..75] default_chunk_size))) = 3
   \<and> map length (chunk_list [1..75] default_chunk_size) = [30, 30, 15]"
proof -
  have pos: "0 < default_chunk_size" by (simp add: default_chunk_size_def)
  have ok: "\<forall>c \<in> set (chunk_list [1..75] default_chunk_size).
       snd (get_tracks test_externals (init_client test_settings ''agent/1.0'' (s_base_url test_settings))
              (prepare_track_ids c)) = Inr (PList (map (\<lambda>i. PStr (str_int i)) c))"
    by code_simp
  have sizes: "map length (chunk_list [1..75] default_chunk_size) = [30, 30, 15]"
    by code_simp
  have n3: "length (chunk_list [1..75] default_chunk_size) = 3"
    using arg_cong [OF sizes, of length] by simp
  note t = get_all_tracks_batches [OF pos ok]
  from t have res: "snd (get_all_tracks test_externals test_client [1..75] default_chunk_size)
       = Inr (map (\<lambda>i. PStr (str_int i)) [1..75])"
    by (simp add: test_client_def)
  from t have "map (\<lambda>r. query_param r ''ids'')
           (requests_of (fst (get_all_tracks test_externals test_client [1..75] default_chunk_size)))
         = map (\<lambda>c. Some (PStr (prepare_track_ids c))) (chunk_list [1..75] default_chunk_size)"
    by (simp add: test_client_def)
  from arg_cong [OF this, of length] n3
  have "length (requests_of (fst (get_all_tracks test_externals test_client [1..75] default_chunk_size))) = 3"
    by simp
  with res sizes show ?thesis by simp
qed

section \<open>Splitting the arguments: what \<open>from_route\<close> returns\<close>

lemma map_of_dict_union: "map_of (dict_union d e) = map_of d ++ map_of (rev e)"
proof (induction e arbitrary: d)
  case Nil
  then show ?case by (simp add: dict_union_def)
next
  case (Cons p e)
  obtain k v where p: "p = (k, v)" by (cases p)
  have "map_of (dict_union d (p # e)) = map_of (dict_union (AList.update k v d) e)"
    by (simp add: dict_union_def p)
  also have "\<dots> = (map_of d)(k \<mapsto> v) ++ map_of (rev e)"
    by (simp only: Cons.IH update_conv')
  also have "\<dots> = map_of d ++ map_of (rev (p # e))"
    by (rule ext) (simp add: p map_add_def split: option.splits)
  finally show ?case .
qed

lemma map_of_rev_distinct: "distinct (map fst e) \<Longrightarrow> map_of (rev e) = map_of e"
proof (induction e)
  case Nil
  then show ?case by simp
next
  case (Cons p e)
  obtain k v where p: "p = (k, v)" by (cases p)
  from Cons.prems p have nk: "map_of e k = None" by (simp add: map_of_eq_None_iff)
  from Cons have ih: "map_of (rev e) = map_of e" by simp
  show ?case
    by (rule ext) (use nk ih p in \<open>auto simp: map_add_def split: option.splits\<close>)
qed

lemma map_of_dict_union_distinct:
  "distinct (map fst e) \<Longrightarrow> map_of (dict_union d e) = map_of d ++ map_of e"
  by (simp add: map_of_dict_union map_of_rev_distinct)

lemma map_of_filter_key:
  "map_of (filter (\<lambda>(k, v). P k) d) k = (if P k then map_of d k else None)"
  by (induction d) auto

lemma from_route_InrD:
  assumes "from_route ext ep path kw = Inr sp"
  shows "\<exists>returned kwargs1 additional0 extra query passed.
      call ep kw = Inr returned
    \<and> distinct (path_param_names path)
    \<and> as_dict (dict_get_default (dict_union (default_kwargs ep) kw) ''kwargs'' (PDict [])) = Inr kwargs1
    \<and> as_dict (py_or returned (PDict [])) = Inr additional0
    \<and> update_arg (dict_get_default additional0 ''kwargs'' (PDict [])) = Inr extra
    \<and> data sp = py_or (dict_get_default (AList.delete ''kwargs'' (dict_union (default_kwargs ep) kw)) ''data'' PNone)
                   (dict_get (AList.delete ''kwargs'' additional0) ''data'')
    \<and> dump_content ext ep (data sp) = Inr (content sp)
    \<and> path_params sp = filter (\<lambda>(k, v). k \<in> set (path_param_names path))
          (AList.delete ''data'' (AList.delete ''kwargs'' (dict_union (default_kwargs ep) kw)))
    \<and> update_arg (dict_get_default (AList.delete ''kwargs'' additional0) ''query'' (PDict [])) = Inr query
    \<and> update_arg (dict_get_default
          (dict_union (filter (\<lambda>(k, v). k \<notin> set (path_param_names path))
             (AList.delete ''data'' (AList.delete ''kwargs'' (dict_union (default_kwargs ep) kw)))) query)
          ''params'' (PDict [])) = Inr passed
    \<and> query_params sp = dict_union (AList.delete ''params''
          (dict_union (filter (\<lambda>(k, v). k \<notin> set (path_param_names path))
             (AList.delete ''data'' (AList.delete ''kwargs'' (dict_union (default_kwargs ep) kw)))) query)) passed
    \<and> kwargs sp = dict_union kwargs1 extra"
  using assms
  by (auto simp: from_route_def get_default_kwargs_def Let_def dict_pop_def compile_path_def
           split: sum.splits if_splits)


section \<open>Path parameters\<close>

lemma format_path_filled:
  assumes "\<forall>n \<in> set (path_param_names path). map_of pp n = Some (val n)"
  shows "format_path render path pp =
           Inr (concat (map (\<lambda>seg. case seg of Lit s \<Rightarrow> s | Field n \<Rightarrow> render (val n)) path))"
  using assms by (induction path rule: path_param_names.induct) auto

lemma format_path_missing:
  assumes "n \<in> set (path_param_names path)" "map_of pp n = None"
  shows "\<exists>e. format_path render path pp = Inl e"
  using assms
  by (induction path rule: path_param_names.induct) (auto split: sum.splits option.splits)

lemma full_kwargs_lookup:
  assumes "distinct (map fst kw)" "k \<noteq> ''kwargs''" "k \<noteq> ''data''"
  shows "map_of (AList.delete ''data'' (AList.delete ''kwargs'' (dict_union dflt kw))) k
           = (map_of dflt ++ map_of kw) k"
  using assms by (simp add: delete_conv' map_of_dict_union_distinct)

lemma make_url_filled:
  assumes fr: "from_route ext ep path kw = Inr sp"
    and d: "distinct (map fst kw)"
    and sup: "set (path_param_names path) \<subseteq> fst ` set kw"
    and res: "''kwargs'' \<notin> set (path_param_names path)" "''data'' \<notin> set (path_param_names path)"
  shows "make_url ext self path (path_params sp) =
           Inr (base_url self @ ''/'' @
                concat (map (\<lambda>seg. case seg of Lit s \<Rightarrow> s
                                   | Field n \<Rightarrow> format_value ext (dict_get kw n)) path))"
proof -
  from from_route_InrD [OF fr] have pp: "path_params sp =
      filter (\<lambda>(k, v). k \<in> set (path_param_names path))
          (AList.delete ''data'' (AList.delete ''kwargs'' (dict_union (default_kwargs ep) kw)))"
    by blast
  have "\<forall>n \<in> set (path_param_names path). map_of (path_params sp) n = Some (dict_get kw n)"
  proof
    fix n assume n: "n \<in> set (path_param_names path)"
    with res have ne: "n \<noteq> ''kwargs''" "n \<noteq> ''data''" by auto
    from n sup have "n \<in> fst ` set kw" by blast
    then obtain v where v: "map_of kw n = Some v" unfolding key_in_iff by blast
    have "map_of (path_params sp) n = (map_of (default_kwargs ep) ++ map_of kw) n"
      unfolding pp using n by (simp add: map_of_filter_key full_kwargs_lookup [OF d ne])
    with v show "map_of (path_params sp) n = Some (dict_get kw n)"
      by (simp add: dict_get_def)
  qed
  from format_path_filled [OF this] show ?thesis by (simp add: make_url_def)
qed

lemma caller_missing_path_param:
  assumes n: "n \<in> set (path_param_names path)"
    and nd: "map_of (default_kwargs ep) n = None"
    and nk: "n \<notin> fst ` set kw"
  shows "\<exists>e. caller ext self method path response_model ep kw = ([], Inl e)"
proof (cases "from_route ext ep path kw")
  case (Inl e)
  then show ?thesis by (simp add: caller_def)
next
  case (Inr sp)
  from from_route_InrD [OF Inr] have pp: "path_params sp =
      filter (\<lambda>(k, v). k \<in> set (path_param_names path))
          (AList.delete ''data'' (AList.delete ''kwargs'' (dict_union (default_kwargs ep) kw)))"
    by blast
  from nk have "map_of (rev kw) n = None" by (simp add: map_of_eq_None_iff)
  with nd have "map_of (dict_union (default_kwargs ep) kw) n = None"
    by (simp add: map_of_dict_union)
  then have "map_of (path_params sp) n = None"
    unfolding pp by (simp add: map_of_filter_key delete_conv')
  from format_path_missing [OF n this] obtain e where
    "format_path (format_value ext) path (path_params sp) = Inl e" by blast
  then show ?thesis using Inr by (simp add: caller_def make_url_def)
qed

lemmas route_defs = post_playlist_def get_playlist_def get_user_likes_def get_user_comments_def
  get_user_reposts_def get_user_followings_ids_def get_user_followers_ids_def get_track_def
  get_stream_def search_def get_artist_shortcuts_def get_artist_shortcut_stories_def
  update_playlist_image_def get_user_playlists_def get_tracks_route_def

lemma client_routes_names:
  assumes "r \<in> set (client_routes st)"
  shows "''kwargs'' \<notin> set (path_param_names (r_path r))"
    and "''data'' \<notin> set (path_param_names (r_path r))"
    and "\<forall>n \<in> set (path_param_names (r_path r)). map_of (default_kwargs (r_endpoint r)) n = None"
  using assms
  by (auto simp: client_routes_def route_defs declared_def paging_def)


text \<open>
  C4. For every route that the client declares: when the keyword arguments (with
  distinct names, as keyword arguments have) include every placeholder of the path
  template and the arguments are accepted, \<open>make_url\<close> returns the base URL, a slash and
  the template with every placeholder replaced by the rendering of the caller's value;
  and when a placeholder is not among the keyword arguments, the call raises and no
  request has been issued.
\<close>

theorem declared_routes_fill_their_paths:
  assumes "r \<in> set (client_routes st)"
  shows "(\<forall>kw sp.
            distinct (map fst kw) \<and> set (path_param_names (r_path r)) \<subseteq> fst ` set kw
            \<and> from_route ext (r_endpoint r) (r_path r) kw = Inr sp
            \<longrightarrow> make_url ext self (r_path r) (path_params sp) =
                  Inr (base_url self @ ''/'' @
                       concat (map (\<lambda>seg. case seg of Lit s \<Rightarrow> s
                                          | Field n \<Rightarrow> format_value ext (dict_get kw n))
                                   (r_path r))))
       \<and> (\<forall>kw n.
            n \<in> set (path_param_names (r_path r)) \<and> n \<notin> fst ` set kw
            \<longrightarrow> isl (snd (call_route ext self r kw))
                \<and> requests_of (fst (call_route ext self r kw)) = [])"
proof (intro conjI allI impI)
  fix kw sp
  assume a: "distinct (map fst kw) \<and> set (path_param_names (r_path r)) \<subseteq> fst ` set kw
            \<and> from_route ext (r_endpoint r) (r_path r) kw = Inr sp"
  from a client_routes_names(1,2) [OF assms]
  show "make_url ext self (r_path r) (path_params sp) =
          Inr (base_url self @ ''/'' @
               concat (map (\<lambda>seg. case seg of Lit s \<Rightarrow> s
                                  | Field n \<Rightarrow> format_value ext (dict_get kw n))
                           (r_path r)))"
    by (intro make_url_filled) auto
next
  fix kw :: dict and n
  assume a: "n \<in> set (path_param_names (r_path r)) \<and> n \<notin> fst ` set kw"
  with client_routes_names(3) [OF assms]
  have "map_of (default_kwargs (r_endpoint r)) n = None" by blast
  with a caller_missing_path_param [of n "r_path r" "r_endpoint r" kw ext self "r_method r" "r_response_model r"]
  obtain e where "call_route ext self r kw = ([], Inl e)"
    by (auto simp: call_route_def)
  then show "isl (snd (call_route ext self r kw))"
    and "requests_of (fst (call_route ext self r kw)) = []" by simp_all
qed

theorem declared_routes_fill_their_paths_witness:
  "get_user_likes \<in> set (client_routes test_settings)
   \<and> (\<exists>sp. from_route test_externals (r_endpoint get_user_likes) (r_path get_user_likes)
              [(''user_id'', PInt 42), (''limit'', PInt 10)] = Inr sp
         \<and> make_url test_externals test_client (r_path get_user_likes) (path_params sp)
             = Inr ''https://api.test/users/42/likes'')
   \<and> isl (snd (call_route test_externals test_client get_user_likes [(''limit'', PInt 10)]))
   \<and> requests_of (fst (call_route test_externals test_client get_user_likes [(''limit'', PInt 10)])) = []"
proof -
  have r: "get_user_likes \<in> set (client_routes test_settings)"
    by (simp add: client_routes_def)
  define sp where "sp = \<lparr> path_params = [(''user_id'', PInt 42)],
       query_params = [(''limit'', PInt 10), (''offset'', PNone), (''linked_partitioning'', PBool True)],
       data = PNone, content = None, kwargs = [] \<rparr>"
  have h1: "distinct (map fst [(''user_id'', PInt 42), (''limit'', PInt 10)])
        \<and> set (path_param_names (r_path get_user_likes))
            \<subseteq> fst ` set [(''user_id'', PInt 42), (''limit'', PInt 10)]
        \<and> from_route test_externals (r_endpoint get_user_likes) (r_path get_user_likes)
              [(''user_id'', PInt 42), (''limit'', PInt 10)] = Inr sp"
    unfolding sp_def by code_simp
  have h2: "''user_id'' \<in> set (path_param_names (r_path get_user_likes))
        \<and> ''user_id'' \<notin> fst ` set [(''limit'', PInt 10)]"
    by code_simp
  have v: "base_url test_client @ ''/'' @
             concat (map (\<lambda>seg. case seg of Lit s \<Rightarrow> s
                   | Field n \<Rightarrow> format_value test_externals
                        (dict_get [(''user_id'', PInt 42), (''limit'', PInt 10)] n))
                (r_path get_user_likes)) = ''https://api.test/users/42/likes''"
    by code_simp
  note t = declared_routes_fill_their_paths [OF r, of test_externals test_client]
  from t h1 have "make_url test_externals test_client (r_path get_user_likes) (path_params sp)
      = Inr (base_url test_client @ ''/'' @
             concat (map (\<lambda>seg. case seg of Lit s \<Rightarrow> s
                   | Field n \<Rightarrow> format_value test_externals
                        (dict_get [(''user_id'', PInt 42), (''limit'', PInt 10)] n))
                (r_path get_user_likes)))" by blast
  with v h1 have a: "\<exists>sp. from_route test_externals (r_endpoint get_user_likes) (r_path get_user_likes)
              [(''user_id'', PInt 42), (''limit'', PInt 10)] = Inr sp
         \<and> make_url test_externals test_client (r_path get_user_likes) (path_params sp)
             = Inr ''https://api.test/users/42/likes''" by auto
  from t h2 have "isl (snd (call_route test_externals test_client get_user_likes [(''limit'', PInt 10)]))
   \<and> requests_of (fst (call_route test_externals test_client get_user_likes [(''limit'', PInt 10)])) = []"
    by blast
  with r a show ?thesis by blast
qed

section \<open>Which argument goes where\<close>

lemma map_of_filter_restrict:
  "map_of (filter (\<lambda>(k, v). P k) d) = map_of d |` {k. P k}"
  by (rule ext) (simp add: map_of_filter_key restrict_map_def)

text \<open>
  What \<open>from_route\<close> makes of the arguments, for any endpoint: \<open>kwargs\<close> and \<open>data\<close>
  are taken out, the rest is split by the placeholders, the entries that the endpoint
  function returned under \<open>query\<close> are laid over the query parameters, and a value
  under \<open>params\<close> is replaced by its entries.
\<close>

lemma from_route_split:
  assumes fr: "from_route ext ep path kw = Inr sp" and d: "distinct (map fst kw)"
  shows "\<exists>returned additional query passed.
      call ep kw = Inr returned
    \<and> as_dict (py_or returned (PDict [])) = Inr additional
    \<and> update_arg (dict_get_default additional ''query'' (PDict [])) = Inr query
    \<and> update_arg
         (case (((map_of (default_kwargs ep) ++ map_of kw)
                   |` (- set (path_param_names path) - {''kwargs'', ''data''}))
                ++ map_of (rev query)) ''params''
          of None \<Rightarrow> PDict [] | Some v \<Rightarrow> v) = Inr passed
    \<and> map_of (path_params sp) =
          (map_of (default_kwargs ep) ++ map_of kw)
            |` (set (path_param_names path) - {''kwargs'', ''data''})
    \<and> map_of (query_params sp) =
          ((((map_of (default_kwargs ep) ++ map_of kw)
               |` (- set (path_param_names path) - {''kwargs'', ''data''}))
            ++ map_of (rev query))(''params'' := None))
          ++ map_of (rev passed)"
proof -
  let ?F = "map_of (default_kwargs ep) ++ map_of kw"
  let ?full2 = "AList.delete ''data'' (AList.delete ''kwargs'' (dict_union (default_kwargs ep) kw))"
  let ?names = "set (path_param_names path)"
  let ?in_query = "filter (\<lambda>(k, v). k \<notin> ?names) ?full2"
  from from_route_InrD [OF fr] obtain returned additional query passed where
    c: "call ep kw = Inr returned"
    and a: "as_dict (py_or returned (PDict [])) = Inr additional"
    and q: "update_arg (dict_get_default (AList.delete ''kwargs'' additional) ''query'' (PDict [])) = Inr query"
    and p: "update_arg (dict_get_default (dict_union ?in_query query) ''params'' (PDict [])) = Inr passed"
    and pp: "path_params sp = filter (\<lambda>(k, v). k \<in> ?names) ?full2"
    and qp: "query_params sp = dict_union (AList.delete ''params'' (dict_union ?in_query query)) passed"
    by blast
  have full2: "map_of ?full2 = ?F |` (- {''kwargs'', ''data''})"
    by (rule ext) (simp add: delete_conv' map_of_dict_union_distinct [OF d] restrict_map_def)
  have inq: "map_of ?in_query = ?F |` (- ?names - {''kwargs'', ''data''})"
    unfolding map_of_filter_restrict full2
    by (rule ext) (simp add: restrict_map_def)
  have q': "update_arg (dict_get_default additional ''query'' (PDict [])) = Inr query"
    using q by (simp add: dict_get_default_def delete_conv')
  have p': "update_arg
         (case ((?F |` (- ?names - {''kwargs'', ''data''})) ++ map_of (rev query)) ''params''
          of None \<Rightarrow> PDict [] | Some v \<Rightarrow> v) = Inr passed"
    using p by (simp add: dict_get_default_def map_of_dict_union inq)
  have ppm: "map_of (path_params sp) = ?F |` (?names - {''kwargs'', ''data''})"
    unfolding pp map_of_filter_restrict full2
    by (rule ext) (simp add: restrict_map_def)
  have qpm: "map_of (query_params sp) =
          (((?F |` (- ?names - {''kwargs'', ''data''})) ++ map_of (rev query))(''params'' := None))
          ++ map_of (rev passed)"
    unfolding qp by (simp add: map_of_dict_union delete_conv' inq)
  from c a q' p' ppm qpm show ?thesis by blast
qed



text \<open>An endpoint of the client accepts its parameters only, and returns \<open>None\<close>.\<close>

lemma declared_call:
  assumes "call (declared required defaults annots) kw = Inr returned"
  shows "returned = PNone" and "fst ` set kw \<subseteq> set (required @ map fst defaults)"
  using assms by (auto simp: declared_def list_all_iff split: if_splits)

lemma declaredI:
  assumes "r = \<lparr> r_method = m, r_path = p, r_response_model = rm,
                 r_endpoint = declared required defaults annots \<rparr>"
    and "k1 \<notin> set (required @ map fst defaults)" "k2 \<notin> set (required @ map fst defaults)"
  shows "\<exists>required defaults annots.
           r_endpoint r = declared required defaults annots
         \<and> k1 \<notin> set (required @ map fst defaults)
         \<and> k2 \<notin> set (required @ map fst defaults)"
  using assms by auto

lemma client_routes_all_declared:
  "list_all (\<lambda>r. \<exists>required defaults annots.
           r_endpoint r = declared required defaults annots
         \<and> ''kwargs'' \<notin> set (required @ map fst defaults)
         \<and> ''params'' \<notin> set (required @ map fst defaults)) (client_routes st)"
  unfolding client_routes_def list_all_Cons_iff list_all_Nil_iff
  by (intro conjI TrueI; unfold route_defs; rule declaredI, rule refl,
      simp_all add: paging_def)

lemma client_routes_declared:
  assumes "r \<in> set (client_routes st)"
  shows "\<exists>required defaults annots.
           r_endpoint r = declared required defaults annots
         \<and> ''kwargs'' \<notin> set (required @ map fst defaults)
         \<and> ''params'' \<notin> set (required @ map fst defaults)"
  using client_routes_all_declared [of st] assms unfolding list_all_iff by blast


text \<open>
  C7. For every route that the client declares and every call of it whose keyword
  arguments (with distinct names) are accepted: the caller's arguments are laid over the
  defaults that the endpoint declares, the caller's value replacing the default of the
  same name; the path parameters are exactly the arguments named like a placeholder of the
  path template, and the query parameters are exactly all the others, but for \<open>data\<close>,
  the body payload, which is no part of the split.
\<close>

theorem declared_routes_split_arguments:
  assumes r: "r \<in> set (client_routes st)" and d: "distinct (map fst kw)"
    and fr: "from_route ext (r_endpoint r) (r_path r) kw = Inr sp"
  shows "map_of (path_params sp) =
           (map_of (default_kwargs (r_endpoint r)) ++ map_of kw)
             |` set (path_param_names (r_path r))
       \<and> map_of (query_params sp) =
           (map_of (default_kwargs (r_endpoint r)) ++ map_of kw)
             |` (- set (path_param_names (r_path r)) - {''data''})"
proof -
  let ?F = "map_of (default_kwargs (r_endpoint r)) ++ map_of kw"
  let ?names = "set (path_param_names (r_path r))"
  from client_routes_declared [OF r] obtain required defaults annots where
    ep: "r_endpoint r = declared required defaults annots"
    and nk: "''kwargs'' \<notin> set (required @ map fst defaults)"
    and np: "''params'' \<notin> set (required @ map fst defaults)"
    by blast
  from from_route_split [OF fr d] obtain returned additional query passed where
    c: "call (r_endpoint r) kw = Inr returned"
    and a: "as_dict (py_or returned (PDict [])) = Inr additional"
    and q: "update_arg (dict_get_default additional ''query'' (PDict [])) = Inr query"
    and p: "update_arg
         (case ((?F |` (- ?names - {''kwargs'', ''data''})) ++ map_of (rev query)) ''params''
          of None \<Rightarrow> PDict [] | Some v \<Rightarrow> v) = Inr passed"
    and ppm: "map_of (path_params sp) = ?F |` (?names - {''kwargs'', ''data''})"
    and qpm: "map_of (query_params sp) =
          (((?F |` (- ?names - {''kwargs'', ''data''})) ++ map_of (rev query))(''params'' := None))
          ++ map_of (rev passed)"
    by blast
  from c ep declared_call [of required defaults annots kw returned]
  have ret: "returned = PNone" and keys: "fst ` set kw \<subseteq> set (required @ map fst defaults)"
    by simp_all
  have dk: "default_kwargs (r_endpoint r) = defaults" by (simp add: ep declared_def)
  have Fk: "map_of (default_kwargs (r_endpoint r)) ''kwargs'' = None" "map_of kw ''kwargs'' = None"
    using nk keys by (auto simp: dk map_of_eq_None_iff)
  have Fp: "map_of (default_kwargs (r_endpoint r)) ''params'' = None" "map_of kw ''params'' = None"
    using np keys by (auto simp: dk map_of_eq_None_iff)
  from a ret have "additional = []" by (simp add: py_or_def as_dict_def)
  with q have query: "query = []" by (simp add: dict_get_default_def)
  from p have passed: "passed = []"
    by (auto simp: query Fp restrict_map_def map_add_def split: if_splits)
  note nm = client_routes_names(1,2) [OF r]
  have "map_of (path_params sp) = ?F |` ?names"
    unfolding ppm using nm by (intro ext) (auto simp: restrict_map_def)
  moreover have "map_of (query_params sp) = ?F |` (- ?names - {''data''})"
    unfolding qpm using Fk Fp
    by (intro ext) (auto simp: query passed restrict_map_def map_add_def)
  ultimately show ?thesis by simp
qed

theorem declared_routes_split_arguments_witness:
  "get_user_likes \<in> set (client_routes test_settings)
   \<and> distinct (map fst [(''user_id'', PInt 42), (''limit'', PInt 10)])
   \<and> (\<exists>sp. from_route test_externals (r_endpoint get_user_likes) (r_path get_user_likes)
              [(''user_id'', PInt 42), (''limit'', PInt 10)] = Inr sp
         \<and> map_of (path_params sp) ''user_id'' = Some (PInt 42)
         \<and> map_of (path_params sp) ''limit'' = None
         \<and> map_of (query_params sp) ''user_id'' = None
         \<and> map_of (query_params sp) ''limit'' = Some (PInt 10)
         \<and> map_of (query_params sp) ''linked_partitioning'' = Some (PBool True))"
proof -
  let ?kw = "[(''user_id'', PInt 42), (''limit'', PInt 10)]"
  define sp where "sp = \<lparr> path_params = [(''user_id'', PInt 42)],
       query_params = [(''limit'', PInt 10), (''offset'', PNone), (''linked_partitioning'', PBool True)],
       data = PNone, content = None, kwargs = [] \<rparr>"
  have r: "get_user_likes \<in> set (client_routes test_settings)"
    by (simp add: client_routes_def)
  have h1: "from_route test_externals (r_endpoint get_user_likes) (r_path get_user_likes) ?kw = Inr sp"
    unfolding sp_def by code_simp
  have h2: "distinct (map fst ?kw)" by simp
  have dk: "default_kwargs (r_endpoint get_user_likes) = paging"
    by (simp add: get_user_likes_def declared_def)
  have names: "set (path_param_names (r_path get_user_likes)) = {''user_id''}"
    by (simp add: get_user_likes_def)
  from declared_routes_split_arguments [OF r h2 h1]
  have ppm: "map_of (path_params sp) = (map_of paging ++ map_of ?kw) |` {''user_id''}"
    and qpm: "map_of (query_params sp) = (map_of paging ++ map_of ?kw) |` (- {''user_id''} - {''data''})"
    by (simp_all add: dk names)
  have "map_of (path_params sp) ''user_id'' = Some (PInt 42)"
    "map_of (path_params sp) ''limit'' = None"
    unfolding ppm by (simp_all add: paging_def restrict_map_def map_add_def)
  moreover have "map_of (query_params sp) ''user_id'' = None"
    "map_of (query_params sp) ''limit'' = Some (PInt 10)"
    "map_of (query_params sp) ''linked_partitioning'' = Some (PBool True)"
    unfolding qpm by (simp_all add: paging_def restrict_map_def map_add_def)
  ultimately show ?thesis using r h1 h2 by blast
qed

section \<open>The body payload\<close>

lemma make_request_keeps:
  assumes "Requested req \<in> set (fst (make_request ext self method url kw))"
    and "k \<notin> {''params'', ''headers'', ''proxies'', ''verify''}"
  shows "map_of (req_kwargs req) k = map_of kw k"
  using assms
  by (auto simp: make_request_def Let_def map_of_dict_setdefault update_conv'
           split: sum.splits option.splits)

lemma caller_requestedD:
  assumes "Requested req \<in> set (fst (caller ext self method path response_model ep kw))"
  shows "\<exists>sp url rkw. from_route ext ep path kw = Inr sp
      \<and> make_url ext self path (path_params sp) = Inr url
      \<and> request_kwargs sp (json_dump ext (PDict (query_params sp))) = Inr rkw
      \<and> Requested req \<in> set (fst (make_request ext self method url rkw))"
proof (cases "from_route ext ep path kw")
  case (Inl e)
  then show ?thesis using assms by (simp add: caller_def)
next
  case sp: (Inr sp)
  show ?thesis
  proof (cases "make_url ext self path (path_params sp)")
    case (Inl e)
    then show ?thesis using assms sp by (simp add: caller_def)
  next
    case url: (Inr url)
    show ?thesis
    proof (cases "request_kwargs sp (json_dump ext (PDict (query_params sp)))")
      case (Inl e)
      then show ?thesis using assms sp url by (simp add: caller_def Let_def)
    next
      case rkw: (Inr rkw)
      obtain evs res where mr: "make_request ext self method url rkw = (evs, res)"
        by (cases "make_request ext self method url rkw") auto
      have "Requested req \<in> set evs"
        using assms sp url rkw mr
        by (auto simp: caller_def Let_def split: sum.splits prod.splits
                 dest: decode_response_no_request)
      with sp url rkw mr show ?thesis by simp
    qed
  qed
qed


lemma from_route_payload:
  assumes fr: "from_route ext ep path kw = Inr sp"
    and pl: "map_of kw ''data'' = Some payload" and t: "truthy payload"
    and d: "distinct (map fst kw)"
    and an: "map_of (annotations ep) ''data'' = Some data_type"
  shows "\<exists>c. dump_json ext data_type payload = Inr c \<and> content sp = Some c"
proof -
  from from_route_InrD [OF fr] obtain additional0 where
    dt: "data sp = py_or (dict_get_default (AList.delete ''kwargs'' (dict_union (default_kwargs ep) kw)) ''data'' PNone)
                   (dict_get (AList.delete ''kwargs'' additional0) ''data'')"
    and dc: "dump_content ext ep (data sp) = Inr (content sp)"
    by blast
  have "map_of (AList.delete ''kwargs'' (dict_union (default_kwargs ep) kw)) ''data'' = Some payload"
    using pl by (simp add: delete_conv' map_of_dict_union_distinct [OF d])
  then have "data sp = payload"
    using dt t by (simp add: dict_get_default_def py_or_def)
  with dc t an show ?thesis
    by (auto simp: dump_content_def split: sum.splits)
qed

text \<open>
  What the code does with a payload that Python counts as true, when \<open>data\<close> is
  annotated with a type: the payload goes through \<open>dump_json\<close> of that type before the
  request; the call raises, with no request issued, exactly when \<open>dump_json\<close> raises, and
  a request carries the text that \<open>dump_json\<close> gave. The code itself checks nothing.
\<close>

text \<open>
  C8. The claim: a payload that violates the declared schema raises a validation error
  before any network call. The code (lines 44 to 47) hands the payload to
  \<open>TypeAdapter(data_type).dump_json\<close>, and its comment expects the validation from
  there; but \<open>dump_json\<close> serializes and does not validate. Run on
  \<open>update_playlist_image(playlist_urn="u1", data={"bogus": 1})\<close>, whose \<open>data\<close> is
  annotated with \<open>PlaylistUpdateImageRequest\<close>: nothing is raised, and the request goes
  out with the mapping written as JSON for its body.
\<close>

theorem violating_payload_is_sent:
  "map_of (annotations (r_endpoint update_playlist_image)) ''data''
     = Some ''PlaylistUpdateImageRequest''
   \<and> call_route test_externals test_client update_playlist_image
        [(''playlist_urn'', PStr ''u1''), (''data'', PDict [(''bogus'', PInt 1)])]
      = ([Log_making_request_to ''https://api.test/playlists/u1/artwork'',
          Log_making_request ''PUT'' ''https://api.test/playlists/u1/artwork'',
          Requested \<lparr> req_method = ''PUT'',
            req_url = ''https://api.test/playlists/u1/artwork'',
            req_kwargs =
              [(''data'', PStr (json_text (PDict [(''bogus'', PInt 1)]))),
               (''params'', PDict [(''client_id'', PStr ''client''),
                                   (''app_version'', PStr ''1739181955''),
                                   (''app_locale'', PStr ''en'')]),
               (''headers'', PDict [(''Authorization'', PStr ''OAuth token''),
                                    (''User-Agent'', PStr ''agent/1.0''),
                                    (''x-datadome-clientid'', PStr ''dd'')]),
               (''verify'', PBool False)] \<rparr>,
          Log_response 200 ''PUT'' ''https://api.test/playlists/u1/artwork'',
          Log_decode_failed 200 ''<html>''],
         Inr PNone)
   \<and> json_text (PDict [(''bogus'', PInt 1)])
      = [CHR ''{'', CHR 0x22] @ ''bogus'' @ [CHR 0x22, CHR '':''] @ ''1}''"
  by code_simp

end
